theory Spec2Isabelle
  imports Main "HOL-Library.Word"
begin

unbundle bit_operations_syntax

section \<open>JavaScript values used by the program\<close>

subsection \<open>Strings\<close>

text \<open>
  A JavaScript string is a sequence of 16-bit code units. \<open>js\<close> embeds a
  literal of the source (all of them are ASCII) into that type.
\<close>

type_synonym jsstring = "16 word list"

definition js :: "string \<Rightarrow> jsstring" where
  "js s = map of_char s"

text \<open>Errors the modelled code can raise. \<open>Error\<close> carries the message of
  \<^verbatim>\<open>throw new Error(...)\<close>; the DOM exceptions are the ones
  \<^verbatim>\<open>RTCDataChannel.send\<close> raises. \<open>NumberLiteral\<close> and \<open>OutOfFuel\<close> are
  not JavaScript errors: the JSON reader of this development stops with the first on a
  number literal (numbers are outside the modelled fragment, no frame or descriptor of
  the program holds one) and with the second when its recursion budget is used up,
  which the budget that \<open>JSON_parse\<close> supplies rules out (\<open>JSON_parse_fuel\<close>
  below).\<close>

datatype js_error =
    TypeError
  | SyntaxError
  | InvalidStateError
  | OperationError
  | Error jsstring
  | NumberLiteral
  | OutOfFuel

subsection \<open>Property order of ordinary objects\<close>

text \<open>
  \<^verbatim>\<open>String(n)\<close> for a non-negative integer below \<open>10^21\<close>, which is what
  \<^verbatim>\<open>state.peers[Date.now()]\<close> uses as the property key.
\<close>

function show_nat :: "nat \<Rightarrow> jsstring" where
  "show_nat n =
     (if n < 10 then [of_nat (48 + n)]
      else show_nat (n div 10) @ [of_nat (48 + n mod 10)])"
  by pat_completeness auto
termination
  by (relation "measure (\<lambda>n. n)") auto

declare show_nat.simps [simp del]

definition is_digit :: "16 word \<Rightarrow> bool" where
  "is_digit c = (0x30 \<le> c \<and> c \<le> 0x39)"

fun digits_val :: "nat \<Rightarrow> jsstring \<Rightarrow> nat" where
  "digits_val acc [] = acc"
| "digits_val acc (c # cs) = digits_val (acc * 10 + (unat c - 48)) cs"

text \<open>
  An array index is a property key that is the canonical decimal form of an integer
  in \<open>0 .. 2^32 - 2\<close>. The own keys of an ordinary object are enumerated with the
  array indices first, ascending, and the other keys after them in the order they
  were created.
\<close>

definition array_index :: "jsstring \<Rightarrow> nat option" where
  "array_index k =
     (if k \<noteq> [] \<and> list_all is_digit k \<and> (length k = 1 \<or> hd k \<noteq> 0x30)
         \<and> digits_val 0 k < 4294967295
      then Some (digits_val 0 k) else None)"

definition index_below :: "nat \<Rightarrow> jsstring \<Rightarrow> bool" where
  "index_below i k = (case array_index k of Some j \<Rightarrow> j < i | None \<Rightarrow> False)"

text \<open>
  An object is the list of its own properties in enumeration order.
  \<open>obj_set\<close> is the assignment \<^verbatim>\<open>o[k] = v\<close>: an existing property keeps its
  place, a new one goes where the enumeration order puts it.
\<close>

type_synonym 'v obj = "(jsstring \<times> 'v) list"

definition obj_get :: "'v obj \<Rightarrow> jsstring \<Rightarrow> 'v option" where
  "obj_get ps k = map_of ps k"

definition obj_insert :: "jsstring \<Rightarrow> 'v \<Rightarrow> 'v obj \<Rightarrow> 'v obj" where
  "obj_insert k v ps =
     (case array_index k of
        None \<Rightarrow> ps @ [(k, v)]
      | Some i \<Rightarrow> takeWhile (\<lambda>p. index_below i (fst p)) ps @ [(k, v)]
                  @ dropWhile (\<lambda>p. index_below i (fst p)) ps)"

definition obj_set :: "jsstring \<Rightarrow> 'v \<Rightarrow> 'v obj \<Rightarrow> 'v obj" where
  "obj_set k v ps =
     (if k \<in> set (map fst ps) then map (\<lambda>p. if fst p = k then (k, v) else p) ps
      else obj_insert k v ps)"

text \<open>\<^verbatim>\<open>delete o[k]\<close>.\<close>

definition obj_delete :: "jsstring \<Rightarrow> 'v obj \<Rightarrow> 'v obj" where
  "obj_delete k ps = filter (\<lambda>p. fst p \<noteq> k) ps"

text \<open>The object spread \<^verbatim>\<open>{...a, ...b}\<close> copies the properties of \<open>b\<close>, in
  enumeration order, onto what is there already.\<close>

definition obj_spread :: "'v obj \<Rightarrow> 'v obj \<Rightarrow> 'v obj" where
  "obj_spread target source = foldl (\<lambda>acc p. obj_set (fst p) (snd p) acc) target source"

text \<open>Which key lists are enumeration orders: neighbours are two array indices in
  ascending order, an array index before another key, or two other keys.\<close>

fun own_keys_ordered :: "jsstring list \<Rightarrow> bool" where
  "own_keys_ordered [] = True"
| "own_keys_ordered [k] = True"
| "own_keys_ordered (k # k' # ks) =
     ((case array_index k' of
         None \<Rightarrow> True
       | Some j \<Rightarrow> index_below j k)
      \<and> own_keys_ordered (k' # ks))"

subsection \<open>JSON values\<close>

text \<open>
  The values that \<^verbatim>\<open>JSON.parse\<close> returns and \<^verbatim>\<open>JSON.stringify\<close> prints,
  without numbers. \<^verbatim>\<open>undefined\<close> is \<open>None\<close> of \<open>json option\<close> where a
  variable or a property read can be undefined.
\<close>

datatype json =
    JNull
  | JBool bool
  | JStr jsstring
  | JArr "json list"
  | JObj "(jsstring \<times> json) list"

fun wf_json :: "json \<Rightarrow> bool"
  and wf_elems :: "json list \<Rightarrow> bool"
  and wf_members :: "(jsstring \<times> json) list \<Rightarrow> bool" where
  "wf_json JNull = True"
| "wf_json (JBool b) = True"
| "wf_json (JStr s) = True"
| "wf_json (JArr xs) = wf_elems xs"
| "wf_json (JObj ps) =
     (distinct (map fst ps) \<and> own_keys_ordered (map fst ps) \<and> wf_members ps)"
| "wf_elems [] = True"
| "wf_elems (x # xs) = (wf_json x \<and> wf_elems xs)"
| "wf_members [] = True"
| "wf_members (p # ps) = (wf_json (snd p) \<and> wf_members ps)"

text \<open>
  Reading a property \<^verbatim>\<open>v.k\<close> for the keys the program reads (\<open>type\<close>,
  \<open>user\<close>, \<open>text\<close>, \<open>userId\<close>, \<open>name\<close>, \<open>avatar\<close>), none of which is a
  property of a built-in prototype: \<^verbatim>\<open>null\<close> and \<^verbatim>\<open>undefined\<close> raise a TypeError, an object
  gives its own property, any other value gives \<^verbatim>\<open>undefined\<close>.
\<close>

fun get_prop :: "json option \<Rightarrow> jsstring \<Rightarrow> js_error + json option" where
  "get_prop None k = Inl TypeError"
| "get_prop (Some JNull) k = Inl TypeError"
| "get_prop (Some (JObj ps)) k = Inr (obj_get ps k)"
| "get_prop (Some v) k = Inr None"

text \<open>
  Reading \<^verbatim>\<open>o[k]\<close> with a key that comes from outside also finds what an
  ordinary object inherits: the properties of \<^verbatim>\<open>Object.prototype\<close>, which are
  functions (and, for \<open>__proto__\<close>, the prototype itself), none of them with a
  property \<open>user\<close> or \<open>channel\<close>.
\<close>

definition object_prototype_members :: "jsstring list" where
  "object_prototype_members =
     [js ''constructor'', js ''__defineGetter__'', js ''__defineSetter__'',
      js ''hasOwnProperty'', js ''__lookupGetter__'', js ''__lookupSetter__'',
      js ''isPrototypeOf'', js ''propertyIsEnumerable'', js ''toString'', js ''valueOf'',
      js ''__proto__'', js ''toLocaleString'']"

definition inherited :: "jsstring \<Rightarrow> bool" where
  "inherited k = (k \<in> set object_prototype_members)"

text \<open>\<^verbatim>\<open>String(v)\<close>, as a template literal applies it: an array joins its
  elements with commas, \<^verbatim>\<open>null\<close> elements printing as nothing.\<close>

fun ToString :: "json \<Rightarrow> jsstring"
  and join_elems :: "json list \<Rightarrow> jsstring"
  and join_elem :: "json \<Rightarrow> jsstring" where
  "ToString JNull = js ''null''"
| "ToString (JBool b) = (if b then js ''true'' else js ''false'')"
| "ToString (JStr s) = s"
| "ToString (JArr xs) = join_elems xs"
| "ToString (JObj ps) = js ''[object Object]''"
| "join_elems [] = []"
| "join_elems [x] = join_elem x"
| "join_elems (x # y # ys) = join_elem x @ js '','' @ join_elems (y # ys)"
| "join_elem JNull = []"
| "join_elem (JBool b) = ToString (JBool b)"
| "join_elem (JStr s) = ToString (JStr s)"
| "join_elem (JArr xs) = ToString (JArr xs)"
| "join_elem (JObj ps) = ToString (JObj ps)"

definition ToString_opt :: "json option \<Rightarrow> jsstring" where
  "ToString_opt v = (case v of None \<Rightarrow> js ''undefined'' | Some x \<Rightarrow> ToString x)"

subsection \<open>\<^verbatim>\<open>JSON.stringify\<close>\<close>

text \<open>
  Code units are written by value: \<open>0x22\<close> the double quote, \<open>0x5C\<close> the
  backslash, \<open>0x2C\<close> the comma, \<open>0x3A\<close> the colon, \<open>0x5B\<close> and \<open>0x5D\<close> the
  square brackets, \<open>0x7B\<close> and \<open>0x7D\<close> the braces.
\<close>

definition hex_digit :: "nat \<Rightarrow> 16 word" where
  "hex_digit d = (if d < 10 then of_nat (48 + d) else of_nat (87 + d))"

definition unicode_escape :: "16 word \<Rightarrow> jsstring" where
  "unicode_escape c =
     [0x5C, 0x75, hex_digit (unat c div 4096), hex_digit (unat c div 256 mod 16),
      hex_digit (unat c div 16 mod 16), hex_digit (unat c mod 16)]"

definition is_leading_surrogate :: "16 word \<Rightarrow> bool" where
  "is_leading_surrogate c = (0xD800 \<le> c \<and> c \<le> 0xDBFF)"

definition is_trailing_surrogate :: "16 word \<Rightarrow> bool" where
  "is_trailing_surrogate c = (0xDC00 \<le> c \<and> c \<le> 0xDFFF)"

text \<open>One code unit that is not part of a surrogate pair.\<close>

definition escape_unit :: "16 word \<Rightarrow> jsstring" where
  "escape_unit c =
     (if c = 0x08 then [0x5C, 0x62]
      else if c = 0x09 then [0x5C, 0x74]
      else if c = 0x0A then [0x5C, 0x6E]
      else if c = 0x0C then [0x5C, 0x66]
      else if c = 0x0D then [0x5C, 0x72]
      else if c = 0x22 then [0x5C, 0x22]
      else if c = 0x5C then [0x5C, 0x5C]
      else if c < 0x20 \<or> is_leading_surrogate c \<or> is_trailing_surrogate c
        then unicode_escape c
      else [c])"

fun quote_units :: "jsstring \<Rightarrow> jsstring" where
  "quote_units [] = []"
| "quote_units [c] = escape_unit c"
| "quote_units (c # d # cs) =
     (if is_leading_surrogate c \<and> is_trailing_surrogate d then c # d # quote_units cs
      else escape_unit c @ quote_units (d # cs))"

definition QuoteJSONString :: "jsstring \<Rightarrow> jsstring" where
  "QuoteJSONString s = 0x22 # quote_units s @ [0x22]"

fun JSON_stringify :: "json \<Rightarrow> jsstring"
  and stringify_elems :: "json list \<Rightarrow> jsstring"
  and stringify_members :: "(jsstring \<times> json) list \<Rightarrow> jsstring" where
  "JSON_stringify JNull = js ''null''"
| "JSON_stringify (JBool b) = (if b then js ''true'' else js ''false'')"
| "JSON_stringify (JStr s) = QuoteJSONString s"
| "JSON_stringify (JArr xs) = 0x5B # stringify_elems xs @ [0x5D]"
| "JSON_stringify (JObj ps) = 0x7B # stringify_members ps @ [0x7D]"
| "stringify_elems [] = []"
| "stringify_elems [x] = JSON_stringify x"
| "stringify_elems (x # y # ys) = JSON_stringify x @ 0x2C # stringify_elems (y # ys)"
| "stringify_members [] = []"
| "stringify_members [p] = QuoteJSONString (fst p) @ 0x3A # JSON_stringify (snd p)"
| "stringify_members (p # q # ps) =
     QuoteJSONString (fst p) @ 0x3A # JSON_stringify (snd p)
       @ 0x2C # stringify_members (q # ps)"

subsection \<open>\<^verbatim>\<open>JSON.parse\<close>\<close>

definition is_ws :: "16 word \<Rightarrow> bool" where
  "is_ws c = (c = 0x20 \<or> c = 0x09 \<or> c = 0x0A \<or> c = 0x0D)"

definition skip_ws :: "jsstring \<Rightarrow> jsstring" where
  "skip_ws s = dropWhile is_ws s"

definition hex_val :: "16 word \<Rightarrow> nat option" where
  "hex_val c =
     (if 0x30 \<le> c \<and> c \<le> 0x39 then Some (unat c - 48)
      else if 0x61 \<le> c \<and> c \<le> 0x66 then Some (unat c - 87)
      else if 0x41 \<le> c \<and> c \<le> 0x46 then Some (unat c - 55)
      else None)"

definition hex4 :: "16 word \<Rightarrow> 16 word \<Rightarrow> 16 word \<Rightarrow> 16 word \<Rightarrow> 16 word option" where
  "hex4 a b c d =
     (case hex_val a of None \<Rightarrow> None | Some x3 \<Rightarrow>
      case hex_val b of None \<Rightarrow> None | Some x2 \<Rightarrow>
      case hex_val c of None \<Rightarrow> None | Some x1 \<Rightarrow>
      case hex_val d of None \<Rightarrow> None | Some x0 \<Rightarrow>
        Some (of_nat (((x3 * 16 + x2) * 16 + x1) * 16 + x0)))"

text \<open>The character after a backslash, other than \<open>u\<close>.\<close>

definition unescape :: "16 word \<Rightarrow> 16 word option" where
  "unescape e =
     (if e = 0x22 then Some 0x22
      else if e = 0x5C then Some 0x5C
      else if e = 0x2F then Some 0x2F
      else if e = 0x62 then Some 0x08
      else if e = 0x66 then Some 0x0C
      else if e = 0x6E then Some 0x0A
      else if e = 0x72 then Some 0x0D
      else if e = 0x74 then Some 0x09
      else None)"

definition cons_unit ::
  "16 word \<Rightarrow> js_error + (jsstring \<times> jsstring) \<Rightarrow> js_error + (jsstring \<times> jsstring)" where
  "cons_unit u res = (case res of Inl e \<Rightarrow> Inl e | Inr (s, r) \<Rightarrow> Inr (u # s, r))"

text \<open>The characters of a string literal after its opening quote, up to the closing
  one, and the input that follows.\<close>

fun parse_chars :: "jsstring \<Rightarrow> js_error + (jsstring \<times> jsstring)" where
  "parse_chars [] = Inl SyntaxError"
| "parse_chars (c # r) =
     (if c = 0x22 then Inr ([], r)
      else if c = 0x5C then
        (case r of
           [] \<Rightarrow> Inl SyntaxError
         | e # r' \<Rightarrow>
             if e = 0x75 then
               (case r' of
                  x3 # x2 # x1 # x0 # r'' \<Rightarrow>
                    (case hex4 x3 x2 x1 x0 of
                       None \<Rightarrow> Inl SyntaxError
                     | Some u \<Rightarrow> cons_unit u (parse_chars r''))
                | _ \<Rightarrow> Inl SyntaxError)
             else
               (case unescape e of
                  None \<Rightarrow> Inl SyntaxError
                | Some u \<Rightarrow> cons_unit u (parse_chars r')))
      else if c < 0x20 then Inl SyntaxError
      else cons_unit c (parse_chars r))"

text \<open>
  A recursive-descent reader of the JSON grammar. The first argument bounds the
  recursion; \<open>JSON_parse\<close> supplies one more than twice the length of the text.
\<close>

fun parse_value :: "nat \<Rightarrow> jsstring \<Rightarrow> js_error + (json \<times> jsstring)"
  and parse_elems :: "nat \<Rightarrow> json list \<Rightarrow> jsstring \<Rightarrow> js_error + (json \<times> jsstring)"
  and parse_members ::
    "nat \<Rightarrow> (jsstring \<times> json) list \<Rightarrow> jsstring \<Rightarrow> js_error + (json \<times> jsstring)" where
  "parse_value 0 s = Inl OutOfFuel"
| "parse_value (Suc n) s =
     (case skip_ws s of
        [] \<Rightarrow> Inl SyntaxError
      | c # r \<Rightarrow>
          if c = 0x22 then
            (case parse_chars r of
               Inl e \<Rightarrow> Inl e
             | Inr (str, r') \<Rightarrow> Inr (JStr str, r'))
          else if c = 0x5B then
            (case skip_ws r of
               [] \<Rightarrow> Inl SyntaxError
             | d # r' \<Rightarrow> if d = 0x5D then Inr (JArr [], r') else parse_elems n [] r)
          else if c = 0x7B then
            (case skip_ws r of
               [] \<Rightarrow> Inl SyntaxError
             | d # r' \<Rightarrow> if d = 0x7D then Inr (JObj [], r') else parse_members n [] r)
          else if take 4 (c # r) = js ''null'' then Inr (JNull, drop 3 r)
          else if take 4 (c # r) = js ''true'' then Inr (JBool True, drop 3 r)
          else if take 5 (c # r) = js ''false'' then Inr (JBool False, drop 4 r)
          else if c = 0x2D \<or> is_digit c then Inl NumberLiteral
          else Inl SyntaxError)"
| "parse_elems 0 acc s = Inl OutOfFuel"
| "parse_elems (Suc n) acc s =
     (case parse_value n s of
        Inl e \<Rightarrow> Inl e
      | Inr (v, r) \<Rightarrow>
          (case skip_ws r of
             [] \<Rightarrow> Inl SyntaxError
           | c # r' \<Rightarrow>
               if c = 0x2C then parse_elems n (acc @ [v]) r'
               else if c = 0x5D then Inr (JArr (acc @ [v]), r')
               else Inl SyntaxError))"
| "parse_members 0 acc s = Inl OutOfFuel"
| "parse_members (Suc n) acc s =
     (case skip_ws s of
        [] \<Rightarrow> Inl SyntaxError
      | c # r \<Rightarrow>
          if c \<noteq> 0x22 then Inl SyntaxError
          else
            (case parse_chars r of
               Inl e \<Rightarrow> Inl e
             | Inr (k, r1) \<Rightarrow>
                 (case skip_ws r1 of
                    [] \<Rightarrow> Inl SyntaxError
                  | c1 # r2 \<Rightarrow>
                      if c1 \<noteq> 0x3A then Inl SyntaxError
                      else
                        (case parse_value n r2 of
                           Inl e \<Rightarrow> Inl e
                         | Inr (v, r3) \<Rightarrow>
                             (case skip_ws r3 of
                                [] \<Rightarrow> Inl SyntaxError
                              | c3 # r4 \<Rightarrow>
                                  if c3 = 0x2C then parse_members n (obj_set k v acc) r4
                                  else if c3 = 0x7D then Inr (JObj (obj_set k v acc), r4)
                                  else Inl SyntaxError)))))"

text \<open>\<^verbatim>\<open>JSON.parse(text)\<close> for a string; \<open>JSON_parse_arg\<close> is the call with an
  argument that may be \<^verbatim>\<open>null\<close> (\<open>None\<close>), which is first turned into the
  string \<open>null\<close>.\<close>

definition JSON_parse :: "jsstring \<Rightarrow> js_error + json" where
  "JSON_parse s =
     (case parse_value (Suc (2 * length s)) s of
        Inl e \<Rightarrow> Inl e
      | Inr (v, r) \<Rightarrow> if skip_ws r = [] then Inr v else Inl SyntaxError)"

definition JSON_parse_arg :: "jsstring option \<Rightarrow> js_error + json" where
  "JSON_parse_arg a = JSON_parse (case a of None \<Rightarrow> js ''null'' | Some s \<Rightarrow> s)"

section \<open>The state store (StateManager)\<close>

text \<open>
  \<^verbatim>\<open>this.listeners\<close> is a Map from event names to arrays of callbacks. A callback
  is a function object, compared by identity: here a number. What a callback does when
  it is called is given by a table \<open>body\<close> from callbacks to a list of actions on the
  store; the actions modelled are the two that change the listener arrays.
  \<open>invoked\<close> is not a field of the class: it records each call of a callback, in
  order, with the event and the data passed.
\<close>

datatype cb_action = Unsubscribe jsstring nat | Subscribe jsstring nat

datatype 'v event_data =
    StateChange "'v obj" "'v obj"
  | KeyChange jsstring "'v option" "'v option"

record 'v StateManager =
  sm_state :: "'v obj"
  sm_listeners :: "(jsstring \<times> nat list) list"
  invoked :: "(nat \<times> jsstring \<times> 'v event_data) list"

definition on :: "jsstring \<Rightarrow> nat \<Rightarrow> 'v StateManager \<Rightarrow> 'v StateManager" where
  "on event callback sm =
     (let ls = (if map_of (sm_listeners sm) event = None
                then sm_listeners sm @ [(event, [])] else sm_listeners sm)
      in sm\<lparr>sm_listeners :=
              map (\<lambda>p. if fst p = event then (fst p, snd p @ [callback]) else p) ls\<rparr>)"

definition off :: "jsstring \<Rightarrow> nat \<Rightarrow> 'v StateManager \<Rightarrow> 'v StateManager" where
  "off event callback sm =
     (case map_of (sm_listeners sm) event of
        None \<Rightarrow> sm
      | Some callbacks \<Rightarrow>
          sm\<lparr>sm_listeners :=
               map (\<lambda>p. if fst p = event then (fst p, remove1 callback (snd p)) else p)
                 (sm_listeners sm)\<rparr>)"

fun run_action :: "'v StateManager \<Rightarrow> cb_action \<Rightarrow> 'v StateManager" where
  "run_action sm (Unsubscribe event callback) = off event callback sm"
| "run_action sm (Subscribe event callback) = on event callback sm"

definition invoke ::
  "(nat \<Rightarrow> cb_action list) \<Rightarrow> nat \<Rightarrow> jsstring \<Rightarrow> 'v event_data \<Rightarrow> 'v StateManager
     \<Rightarrow> 'v StateManager" where
  "invoke body cb event data sm =
     foldl run_action (sm\<lparr>invoked := invoked sm @ [(cb, event, data)]\<rparr>) (body cb)"

definition the_callbacks :: "'v StateManager \<Rightarrow> jsstring \<Rightarrow> nat list" where
  "the_callbacks sm event =
     (case map_of (sm_listeners sm) event of None \<Rightarrow> [] | Some callbacks \<Rightarrow> callbacks)"

text \<open>
  \<^verbatim>\<open>callbacks.forEach(cb => cb(data))\<close>. \<^verbatim>\<open>Array.prototype.forEach\<close> reads
  the length once and then visits the indices \<open>0 .. length - 1\<close> of the array as
  it is when each index is reached, skipping an index the array no longer has.
  The array of an event is never replaced in the Map, so the array being iterated is
  the one \<open>the_callbacks\<close> finds. \<open>forEach_from n k\<close> visits the \<open>n\<close> indices
  from \<open>k\<close>.
\<close>

primrec forEach_from ::
  "nat \<Rightarrow> nat \<Rightarrow> (nat \<Rightarrow> cb_action list) \<Rightarrow> jsstring \<Rightarrow> 'v event_data
     \<Rightarrow> 'v StateManager \<Rightarrow> 'v StateManager" where
  "forEach_from 0 k body event data sm = sm"
| "forEach_from (Suc n) k body event data sm =
     forEach_from n (Suc k) body event data
       (if k < length (the_callbacks sm event)
        then invoke body (the_callbacks sm event ! k) event data sm
        else sm)"

definition emit ::
  "(nat \<Rightarrow> cb_action list) \<Rightarrow> jsstring \<Rightarrow> 'v event_data \<Rightarrow> 'v StateManager
     \<Rightarrow> 'v StateManager" where
  "emit body event data sm =
     (case map_of (sm_listeners sm) event of
        None \<Rightarrow> sm
      | Some callbacks \<Rightarrow> forEach_from (length callbacks) 0 body event data sm)"

definition setState ::
  "(nat \<Rightarrow> cb_action list) \<Rightarrow> 'v obj \<Rightarrow> jsstring \<Rightarrow> 'v StateManager \<Rightarrow> 'v StateManager" where
  "setState body updates event sm =
     (let prevState = sm_state sm;
          sm1 = sm\<lparr>sm_state := obj_spread (obj_spread [] prevState) updates\<rparr>;
          sm2 = emit body event (StateChange prevState (sm_state sm1)) sm1
      in foldl (\<lambda>acc key.
                  emit body (key @ js '':change'')
                    (KeyChange key (obj_get (sm_state acc) key) (obj_get prevState key)) acc)
           sm2 (map fst updates))"

section \<open>Browser objects\<close>

datatype ready_state = Connecting | Open | Closing | Closed

text \<open>
  An \<^verbatim>\<open>RTCDataChannel\<close>: its state, the connection that owns it, the largest
  message its transport takes, and the frames handed to \<^verbatim>\<open>send\<close> so far.
  An \<^verbatim>\<open>RTCPeerConnection\<close>: whether it has been closed, and its local and
  remote descriptions (\<open>JNull\<close> when there is none). Objects live in the two heaps
  of \<open>world\<close> and are referred to by number, since a peer record and the manager can
  hold the same channel.
\<close>

record data_channel =
  readyState :: ready_state
  owner :: nat
  maxMessageSize :: nat
  sent :: "jsstring list"

record peer_connection =
  pc_closed :: bool
  localDescription :: json
  remoteDescription :: json

text \<open>What the browser answers during a negotiation: the description that
  \<^verbatim>\<open>createOffer()\<close> or \<^verbatim>\<open>createAnswer()\<close> resolves to, which remote descriptions
  \<^verbatim>\<open>setRemoteDescription\<close> accepts, and the message size limit of a new channel.\<close>

record browser =
  new_description :: json
  rejects_remote :: "json \<Rightarrow> js_error option"
  sctp_maxMessageSize :: nat

text \<open>The library \<^verbatim>\<open>LZString\<close> is not part of the repository: its two functions
  are parameters. \<^verbatim>\<open>decompressFromBase64\<close> can return \<^verbatim>\<open>null\<close>.\<close>

record lzstring =
  compressToBase64 :: "jsstring \<Rightarrow> jsstring"
  decompressFromBase64 :: "jsstring \<Rightarrow> jsstring option"

section \<open>Application state\<close>

text \<open>
  \<open>WebRTCManager\<close> holds the fields of the class; a callback field is \<open>True\<close>
  when the handler that \<^verbatim>\<open>setupWebRTCHandlers\<close> assigns is installed and \<open>False\<close>
  when the field is \<^verbatim>\<open>null\<close> (no other function is ever assigned). \<open>link_isHost\<close>
  is \<^verbatim>\<open>this.isHost\<close> of the manager, \<open>isHost\<close> is \<^verbatim>\<open>state.isHost\<close> of app.js.
\<close>

record WebRTCManager =
  localPC :: "nat option"
  hostPC :: "nat option"
  channel :: "nat option"
  link_isHost :: bool
  onMessage :: bool
  onPeerJoin :: bool
  onPeerLeave :: bool
  onConnected :: bool
  onDisconnected :: bool
  onIdentityRequest :: bool

record peer =
  peer_user :: "json option"
  peer_channel :: "nat option"

record app_state =
  user :: json
  isHost :: bool
  isConnected :: bool
  peers :: "peer obj"
  currentScreen :: jsstring
  isReady :: bool

text \<open>Calls of the rendering functions of app.js and of the browser's
  \<^verbatim>\<open>alert\<close> and \<^verbatim>\<open>window.location.reload\<close>, in the order they are made.\<close>

datatype ui_call =
    RenderMessage "json option" "json option" bool
  | AddSystemMessage "json option"
  | UpdatePeerCount nat
  | UpdateConnectionStatus jsstring bool
  | ShowToast jsstring jsstring
  | CloseModal jsstring
  | ShowScreen jsstring
  | ShowParticipantsModal
  | Alert jsstring
  | Reload

text \<open>A value of the store: a JSON value, or the object
  \<^verbatim>\<open>{ event, data, timestamp }\<close> that \<^verbatim>\<open>WebRTCManager.emit\<close> stores, whose
  \<open>data\<close> may be \<^verbatim>\<open>undefined\<close>.\<close>

datatype store_value = Plain json | LastEvent jsstring "json option" nat

record world =
  state :: app_state
  webrtc :: "WebRTCManager option"
  store :: "store_value StateManager option"
  channels :: "nat \<Rightarrow> data_channel option"
  connections :: "nat \<Rightarrow> peer_connection option"
  next_ref :: nat
  ui :: "ui_call list"

text \<open>A function of the program takes the world and returns the value it returns or
  the error it raises, with the world as it has left it: what was assigned before a
  raise stays assigned.\<close>

type_synonym 'a io = "world \<Rightarrow> (js_error + 'a) \<times> world"

definition ret :: "'a \<Rightarrow> 'a io" where
  "ret x w = (Inr x, w)"

definition throw :: "js_error \<Rightarrow> 'a io" where
  "throw e w = (Inl e, w)"

definition bind :: "'a io \<Rightarrow> ('a \<Rightarrow> 'b io) \<Rightarrow> 'b io" where
  "bind m f w = (case m w of (Inl e, w') \<Rightarrow> (Inl e, w') | (Inr x, w') \<Rightarrow> f x w')"

definition seq :: "unit io \<Rightarrow> 'b io \<Rightarrow> 'b io" where
  "seq m k = bind m (\<lambda>_. k)"

definition modify :: "(world \<Rightarrow> world) \<Rightarrow> unit io" where
  "modify f w = (Inr (), f w)"

definition call_ui :: "ui_call \<Rightarrow> world \<Rightarrow> world" where
  "call_ui c w = w\<lparr>ui := ui w @ [c]\<rparr>"

text \<open>The page as its scripts leave it when they have run from the top:
  the \<^verbatim>\<open>state\<close> literal of app.js, \<^verbatim>\<open>let webrtc = null\<close>, and the store
  created in the state module (its initial object is \<open>initial_store_state\<close>).\<close>

definition initial_state :: app_state where
  "initial_state =
     \<lparr>user = JObj [(js ''id'', JNull), (js ''name'', JStr []), (js ''avatar'', JStr [])],
      isHost = False, isConnected = False, peers = [],
      currentScreen = js ''login'', isReady = False\<rparr>"

definition initial_store_state :: "store_value obj" where
  "initial_store_state =
     [(js ''user'',
         Plain (JObj [(js ''id'', JNull), (js ''name'', JStr []), (js ''avatar'', JStr [])])),
      (js ''isHost'', Plain (JBool False)),
      (js ''isConnected'', Plain (JBool False)),
      (js ''peers'', Plain (JObj [])),
      (js ''serverConn'', Plain JNull),
      (js ''currentScreen'', Plain (JStr (js ''login''))),
      (js ''isReady'', Plain (JBool False)),
      (js ''error'', Plain JNull)]"

section \<open>What the browser does\<close>

text \<open>The size of a string in UTF-8, which is what a data channel sends for a string:
  a surrogate pair takes four bytes, any other code unit one to three.\<close>

definition unit_bytes :: "16 word \<Rightarrow> nat" where
  "unit_bytes c = (if c < 0x80 then 1 else if c < 0x800 then 2 else 3)"

fun utf8_length :: "jsstring \<Rightarrow> nat" where
  "utf8_length [] = 0"
| "utf8_length [c] = unit_bytes c"
| "utf8_length (c # d # cs) =
     (if is_leading_surrogate c \<and> is_trailing_surrogate d then 4 + utf8_length cs
      else unit_bytes c + utf8_length (d # cs))"

text \<open>
  \<^verbatim>\<open>RTCDataChannel.send(data)\<close>: an InvalidStateError unless the channel is open,
  a TypeError when the data is larger than the transport's \<^verbatim>\<open>maxMessageSize\<close>,
  otherwise the data is queued. (A reference to no object cannot arise; the function
  answers it with a TypeError.)
\<close>

definition channel_send :: "nat \<Rightarrow> jsstring \<Rightarrow> unit io" where
  "channel_send c data w =
     (case channels w c of
        None \<Rightarrow> (Inl TypeError, w)
      | Some ch \<Rightarrow>
          if readyState ch \<noteq> Open then (Inl InvalidStateError, w)
          else if maxMessageSize ch < utf8_length data then (Inl TypeError, w)
          else (Inr (), w\<lparr>channels := (channels w)(c \<mapsto> ch\<lparr>sent := sent ch @ [data]\<rparr>)\<rparr>))"

text \<open>\<^verbatim>\<open>RTCDataChannel.close()\<close> starts closing a channel that is not closing or
  closed already.\<close>

definition channel_close :: "nat \<Rightarrow> world \<Rightarrow> world" where
  "channel_close c w =
     (case channels w c of
        None \<Rightarrow> w
      | Some ch \<Rightarrow>
          if readyState ch = Closing \<or> readyState ch = Closed then w
          else w\<lparr>channels := (channels w)(c \<mapsto> ch\<lparr>readyState := Closing\<rparr>)\<rparr>)"

text \<open>\<^verbatim>\<open>RTCPeerConnection.close()\<close> closes the connection and sets each of its data
  channels to closed.\<close>

definition pc_close :: "nat \<Rightarrow> world \<Rightarrow> world" where
  "pc_close pc w =
     (case connections w pc of
        None \<Rightarrow> w
      | Some p \<Rightarrow>
          if pc_closed p then w
          else w\<lparr>connections := (connections w)(pc \<mapsto> p\<lparr>pc_closed := True\<rparr>),
                 channels := (\<lambda>c. case channels w c of
                                      None \<Rightarrow> None
                                    | Some ch \<Rightarrow>
                                        if owner ch = pc then Some (ch\<lparr>readyState := Closed\<rparr>)
                                        else Some ch)\<rparr>)"

text \<open>
  \<^verbatim>\<open>window.location.reload()\<close>: the document is discarded, which closes its
  connections and channels, and the scripts run again from the top.
\<close>

definition reload_page :: "world \<Rightarrow> world" where
  "reload_page w =
     w\<lparr>state := initial_state,
       webrtc := None,
       store := (case store w of
                   None \<Rightarrow> None
                 | Some sm \<Rightarrow> Some (sm\<lparr>sm_state := initial_store_state, sm_listeners := []\<rparr>)),
       channels := (\<lambda>c. case channels w c of
                            None \<Rightarrow> None
                          | Some ch \<Rightarrow> Some (ch\<lparr>readyState := Closed\<rparr>)),
       connections := (\<lambda>r. case connections w r of
                               None \<Rightarrow> None
                             | Some p \<Rightarrow> Some (p\<lparr>pc_closed := True\<rparr>)),
       ui := ui w @ [Reload]\<rparr>"

section \<open>WebRTCManager: sending\<close>

text \<open>
  The methods act on the one manager of the page, the variable \<^verbatim>\<open>webrtc\<close> of
  app.js; where that variable is \<^verbatim>\<open>null\<close> a call through it is a TypeError.

  \<^verbatim>\<open>send(type, payload)\<close>. \<open>envelope\<close> is the object \<^verbatim>\<open>{ type, ...payload }\<close>:
  the property \<open>type\<close> first, then the properties of the payload copied onto it.
  The payload is an object whose property values are JSON values.
\<close>

definition envelope :: "jsstring \<Rightarrow> json obj \<Rightarrow> json" where
  "envelope type payload = JObj (obj_spread [(js ''type'', JStr type)] payload)"

definition send :: "jsstring \<Rightarrow> json obj \<Rightarrow> bool io" where
  "send type payload w =
     (case webrtc w of
        None \<Rightarrow> (Inl TypeError, w)
      | Some m \<Rightarrow>
          (case channel m of
             None \<Rightarrow> (Inr False, w)
           | Some c \<Rightarrow>
               (case channels w c of
                  None \<Rightarrow> (Inl TypeError, w)
                | Some ch \<Rightarrow>
                    if readyState ch = Open then
                      bind (channel_send c (JSON_stringify (envelope type payload)))
                        (\<lambda>_. ret True) w
                    else (Inr False, w))))"

definition compressDescription :: "lzstring option \<Rightarrow> json \<Rightarrow> jsstring" where
  "compressDescription lz desc =
     (case lz of
        Some L \<Rightarrow> compressToBase64 L (JSON_stringify desc)
      | None \<Rightarrow> JSON_stringify desc)"

definition decompressDescription :: "lzstring option \<Rightarrow> jsstring \<Rightarrow> js_error + json" where
  "decompressDescription lz data =
     (case lz of
        Some L \<Rightarrow> JSON_parse_arg (decompressFromBase64 L data)
      | None \<Rightarrow> JSON_parse data)"

text \<open>\<^verbatim>\<open>emit(event, data)\<close> of the manager: with a store on the page, it stores
  \<^verbatim>\<open>{ lastEvent: { event, data, timestamp: Date.now() } }\<close>.\<close>

definition webrtc_emit ::
  "(nat \<Rightarrow> cb_action list) \<Rightarrow> nat \<Rightarrow> jsstring \<Rightarrow> json option \<Rightarrow> world \<Rightarrow> world" where
  "webrtc_emit body now event data w =
     (case store w of
        None \<Rightarrow> w
      | Some sm \<Rightarrow>
          w\<lparr>store := Some (setState body [(js ''lastEvent'', LastEvent event data now)]
                              (js ''update'') sm)\<rparr>)"

definition cleanup :: "world \<Rightarrow> world" where
  "cleanup w =
     (case webrtc w of
        None \<Rightarrow> w
      | Some m \<Rightarrow>
          (let w1 = (case channel m of None \<Rightarrow> w | Some c \<Rightarrow> channel_close c w);
               w2 = (case localPC m of None \<Rightarrow> w1 | Some pc \<Rightarrow> pc_close pc w1)
           in w2\<lparr>webrtc := Some (m\<lparr>channel := None, localPC := None, link_isHost := False\<rparr>)\<rparr>))"

definition destroy :: "world \<Rightarrow> world" where
  "destroy w =
     (let w1 = cleanup w
      in case webrtc w1 of
           None \<Rightarrow> w1
         | Some m \<Rightarrow>
             w1\<lparr>webrtc := Some (m\<lparr>onMessage := False, onPeerJoin := False,
                                   onPeerLeave := False, onConnected := False,
                                   onDisconnected := False, onIdentityRequest := False\<rparr>)\<rparr>)"

section \<open>app.js\<close>

fun broadcast_loop :: "json \<Rightarrow> jsstring option \<Rightarrow> (jsstring \<times> peer) list \<Rightarrow> unit io" where
  "broadcast_loop message excludeId [] w = (Inr (), w)"
| "broadcast_loop message excludeId (entry # rest) w =
     (case peer_channel (snd entry) of
        None \<Rightarrow> broadcast_loop message excludeId rest w
      | Some c \<Rightarrow>
          (case channels w c of
             None \<Rightarrow> broadcast_loop message excludeId rest w
           | Some ch \<Rightarrow>
               if Some (fst entry) \<noteq> excludeId \<and> readyState ch = Open then
                 (case channel_send c (JSON_stringify message) w of
                    (Inl e, w') \<Rightarrow> (Inl e, w')
                  | (Inr u, w') \<Rightarrow> broadcast_loop message excludeId rest w')
               else broadcast_loop message excludeId rest w))"

text \<open>\<^verbatim>\<open>broadcastMessage(message, excludeId = null)\<close>; \<open>None\<close> is the
  \<^verbatim>\<open>null\<close> that no property key equals.\<close>

definition broadcastMessage :: "json \<Rightarrow> jsstring option \<Rightarrow> unit io" where
  "broadcastMessage message excludeId w =
     (if \<not> isHost (state w) \<or> webrtc w = None then (Inr (), w)
      else broadcast_loop message excludeId (peers (state w)) w)"

text \<open>
  \<^verbatim>\<open>renderMessage(user, text, isMe)\<close> on the chat page, which has the chat view:
  for a message of somebody else the row shows \<^verbatim>\<open>user.avatar\<close> and
  \<^verbatim>\<open>user.name\<close>, so a \<open>user\<close> that is \<^verbatim>\<open>null\<close> or \<^verbatim>\<open>undefined\<close>
  raises a TypeError before anything is shown. \<^verbatim>\<open>addSystemMessage\<close> shows its
  argument as it is.
\<close>

definition renderMessage :: "json option \<Rightarrow> json option \<Rightarrow> bool \<Rightarrow> unit io" where
  "renderMessage u tx isMe w =
     (if isMe then (Inr (), call_ui (RenderMessage u tx isMe) w)
      else
        (case get_prop u (js ''avatar'') of
           Inl e \<Rightarrow> (Inl e, w)
         | Inr a \<Rightarrow> (Inr (), call_ui (RenderMessage u tx isMe) w)))"

text \<open>The six handlers that \<^verbatim>\<open>setupWebRTCHandlers\<close> installs.\<close>

definition app_onMessage :: "json \<Rightarrow> unit io" where
  "app_onMessage msg w =
     (case get_prop (Some msg) (js ''type'') of
        Inl e \<Rightarrow> (Inl e, w)
      | Inr t \<Rightarrow>
          if t = Some (JStr (js ''chat'')) then
            (case get_prop (Some msg) (js ''user'') of
               Inl e \<Rightarrow> (Inl e, w)
             | Inr u \<Rightarrow>
                 (case get_prop (Some msg) (js ''text'') of
                    Inl e \<Rightarrow> (Inl e, w)
                  | Inr tx \<Rightarrow> renderMessage u tx False w))
          else if t = Some (JStr (js ''system'')) then
            (case get_prop (Some msg) (js ''text'') of
               Inl e \<Rightarrow> (Inl e, w)
             | Inr tx \<Rightarrow> (Inr (), call_ui (AddSystemMessage tx) w))
          else (Inr (), w))"

definition app_onPeerJoin :: "nat \<Rightarrow> json option \<Rightarrow> unit io" where
  "app_onPeerJoin now u w =
     (case webrtc w of
        None \<Rightarrow> (Inl TypeError, w)
      | Some m \<Rightarrow>
          (let w1 = w\<lparr>state := (state w)\<lparr>peers :=
                         obj_set (show_nat now) \<lparr>peer_user = u, peer_channel = channel m\<rparr>
                           (peers (state w))\<rparr>\<rparr>;
               w2 = call_ui (UpdatePeerCount (length (peers (state w1)))) w1
           in case get_prop u (js ''name'') of
                Inl e \<Rightarrow> (Inl e, w2)
              | Inr n \<Rightarrow>
                  broadcastMessage
                    (JObj [(js ''type'', JStr (js ''system'')),
                           (js ''text'', JStr (ToString_opt n @ js '' joined.''))])
                    None
                    (call_ui (AddSystemMessage (Some (JStr (ToString_opt n @ js '' joined.'')))) w2)))"

text \<open>In \<^verbatim>\<open>onPeerLeave\<close> a \<open>userId\<close> that names an inherited property finds
  a value without \<open>user\<close>, and \<^verbatim>\<open>peer.user.name\<close> raises a TypeError.\<close>

definition app_onPeerLeave :: "json option \<Rightarrow> unit io" where
  "app_onPeerLeave userId w =
     (case obj_get (peers (state w)) (ToString_opt userId) of
        None \<Rightarrow> if inherited (ToString_opt userId) then (Inl TypeError, w) else (Inr (), w)
      | Some p \<Rightarrow>
          (case get_prop (peer_user p) (js ''name'') of
             Inl e \<Rightarrow> (Inl e, w)
           | Inr n \<Rightarrow>
               (let w1 = call_ui (AddSystemMessage
                                    (Some (JStr (ToString_opt n @ js '' disconnected.'')))) w;
                    w2 = w1\<lparr>state := (state w1)\<lparr>peers :=
                                obj_delete (ToString_opt userId) (peers (state w1))\<rparr>\<rparr>
                in (Inr (), call_ui (UpdatePeerCount (length (peers (state w2)))) w2))))"

definition app_onConnected :: "unit io" where
  "app_onConnected w =
     (let w1 = w\<lparr>state := (state w)\<lparr>isConnected := True\<rparr>\<rparr>;
          w2 = call_ui (CloseModal (js ''modal-qr'')) w1;
          w3 = call_ui (UpdateConnectionStatus (js ''Connected'') True) w2;
          w4 = call_ui (AddSystemMessage (Some (JStr (js ''Connected!'')))) w3
      in bind (send (js ''identity'') [(js ''user'', user (state w4))]) (\<lambda>_. ret ()) w4)"

definition app_onDisconnected :: "unit io" where
  "app_onDisconnected w =
     (let w1 = w\<lparr>state := (state w)\<lparr>isConnected := False\<rparr>\<rparr>;
          w2 = call_ui (UpdateConnectionStatus (js ''Disconnected'') False) w1
      in (Inr (), call_ui (ShowToast (js ''Disconnected from host'') (js ''error'')) w2))"

definition app_onIdentityRequest :: "unit io" where
  "app_onIdentityRequest w =
     bind (send (js ''identity'') [(js ''user'', user (state w))]) (\<lambda>_. ret ()) w"

definition new_WebRTCManager :: WebRTCManager where
  "new_WebRTCManager =
     \<lparr>localPC = None, hostPC = None, channel = None, link_isHost = False,
      onMessage = False, onPeerJoin = False, onPeerLeave = False,
      onConnected = False, onDisconnected = False, onIdentityRequest = False\<rparr>"

definition setupWebRTCHandlers :: "world \<Rightarrow> world" where
  "setupWebRTCHandlers w =
     (case webrtc w of
        None \<Rightarrow> w
      | Some m \<Rightarrow>
          w\<lparr>webrtc := Some (m\<lparr>onMessage := True, onPeerJoin := True, onPeerLeave := True,
                               onConnected := True, onDisconnected := True,
                               onIdentityRequest := True\<rparr>)\<rparr>)"

text \<open>\<^verbatim>\<open>if (!webrtc) { webrtc = new WebRTCManager(); setupWebRTCHandlers(); }\<close>,
  as \<^verbatim>\<open>showInviteModal\<close> and \<^verbatim>\<open>handleScan\<close> begin.\<close>

definition ensure_webrtc :: "world \<Rightarrow> world" where
  "ensure_webrtc w =
     (case webrtc w of
        None \<Rightarrow> setupWebRTCHandlers (w\<lparr>webrtc := Some new_WebRTCManager\<rparr>)
      | Some m \<Rightarrow> w)"

text \<open>\<^verbatim>\<open>initHost\<close> and \<^verbatim>\<open>initJoin\<close>, up to the scanner the second one starts.\<close>

definition initHost :: "world \<Rightarrow> world" where
  "initHost w =
     call_ui (AddSystemMessage
                (Some (JStr (js ''Group created. Share connection code to invite others.''))))
       (call_ui (ShowScreen (js ''chat''))
          (w\<lparr>state := (state w)\<lparr>isHost := True, isConnected := True, peers := [],
                                   currentScreen := js ''chat''\<rparr>\<rparr>))"

definition initJoin :: "world \<Rightarrow> world" where
  "initJoin w =
     call_ui (ShowScreen (js ''chat''))
       (w\<lparr>state := (state w)\<lparr>isHost := False, isConnected := False,
                                currentScreen := js ''chat''\<rparr>\<rparr>)"

text \<open>\<^verbatim>\<open>sendMessage\<close>, with the trimmed text of the input field.\<close>

definition sendMessage :: "jsstring \<Rightarrow> unit io" where
  "sendMessage text w =
     (if text = [] \<or> \<not> isConnected (state w) then (Inr (), w)
      else
        (let w1 = snd (renderMessage (Some (user (state w))) (Some (JStr text)) True w)
         in if isHost (state w1) then
              broadcastMessage
                (JObj [(js ''type'', JStr (js ''chat'')), (js ''text'', JStr text),
                       (js ''user'', user (state w1))])
                None w1
            else
              (case webrtc w1 of
                 None \<Rightarrow> (Inr (), w1)
               | Some m \<Rightarrow>
                   (case channel m of
                      None \<Rightarrow> (Inr (), w1)
                    | Some c \<Rightarrow>
                        bind (send (js ''chat'')
                                [(js ''text'', JStr text), (js ''user'', user (state w1))])
                          (\<lambda>_. ret ()) w1))))"

text \<open>\<^verbatim>\<open>showParticipantsModal\<close> lists the registry and reads
  \<^verbatim>\<open>peer.user.avatar\<close> of every record: a record whose \<open>user\<close> is
  \<^verbatim>\<open>null\<close> or \<^verbatim>\<open>undefined\<close> raises a TypeError before the dialog is shown.\<close>

definition showParticipantsModal :: "unit io" where
  "showParticipantsModal w =
     (if list_all (\<lambda>p. peer_user (snd p) \<noteq> None \<and> peer_user (snd p) \<noteq> Some JNull)
           (peers (state w))
      then (Inr (), call_ui ShowParticipantsModal w)
      else (Inl TypeError, w))"

text \<open>\<^verbatim>\<open>kickPeer(id)\<close>. For an \<open>id\<close> that names an inherited property the
  value found has no \<open>channel\<close> and the \<^verbatim>\<open>delete\<close> removes nothing.\<close>

definition kickPeer :: "jsstring \<Rightarrow> unit io" where
  "kickPeer peerId w =
     (case obj_get (peers (state w)) peerId of
        None \<Rightarrow>
          if inherited peerId then
            bind showParticipantsModal
              (\<lambda>_ w1. (Inr (), call_ui (UpdatePeerCount (length (peers (state w1)))) w1)) w
          else (Inr (), w)
      | Some p \<Rightarrow>
          bind (case peer_channel p of
                  None \<Rightarrow> ret ()
                | Some c \<Rightarrow>
                    bind (channel_send c (JSON_stringify (JObj [(js ''type'', JStr (js ''kick''))])))
                      (\<lambda>_. modify (channel_close c)))
            (\<lambda>_. bind (modify (\<lambda>w1. w1\<lparr>state := (state w1)\<lparr>peers :=
                                     obj_delete peerId (peers (state w1))\<rparr>\<rparr>))
              (\<lambda>_. bind showParticipantsModal
                (\<lambda>_ w3. (Inr (), call_ui (UpdatePeerCount (length (peers (state w3)))) w3)))) w)"

section \<open>WebRTCManager: receiving\<close>

text \<open>\<^verbatim>\<open>handleMessage(msg)\<close>; \<open>now\<close> is what \<^verbatim>\<open>Date.now()\<close> returns during
  the call.\<close>

definition handleMessage :: "nat \<Rightarrow> json \<Rightarrow> unit io" where
  "handleMessage now msg w =
     (case get_prop (Some msg) (js ''type'') of
        Inl e \<Rightarrow> (Inl e, w)
      | Inr t \<Rightarrow>
          (case webrtc w of
             None \<Rightarrow> (Inl TypeError, w)
           | Some m \<Rightarrow>
               if t = Some (JStr (js ''identity'')) then
                 (if onPeerJoin m then
                    (case get_prop (Some msg) (js ''user'') of
                       Inl e \<Rightarrow> (Inl e, w)
                     | Inr u \<Rightarrow> app_onPeerJoin now u w)
                  else (Inr (), w))
               else if t = Some (JStr (js ''chat'')) then
                 (if onMessage m then app_onMessage msg w else (Inr (), w))
               else if t = Some (JStr (js ''system'')) then
                 (if onMessage m then app_onMessage msg w else (Inr (), w))
               else if t = Some (JStr (js ''req-identity'')) then
                 (if onIdentityRequest m then app_onIdentityRequest w else (Inr (), w))
               else if t = Some (JStr (js ''close'')) then
                 (Inr (), reload_page (call_ui (Alert (js ''Host ended the session'')) (cleanup w)))
               else if t = Some (JStr (js ''leave'')) then
                 (if onPeerLeave m then
                    (case get_prop (Some msg) (js ''userId'') of
                       Inl e \<Rightarrow> (Inl e, w)
                     | Inr uid \<Rightarrow> app_onPeerLeave uid w)
                  else (Inr (), w))
               else if t = Some (JStr (js ''kick'')) then
                 (Inr (), reload_page
                            (call_ui (Alert (js ''You were removed from the group'')) (cleanup w)))
               else (Inr (), w)))"

text \<open>The handlers that \<^verbatim>\<open>setupChannelHandlers(channel, role)\<close> puts on a channel.
  The browser has set the channel to open before it calls \<^verbatim>\<open>onopen\<close>, and to
  closed before it calls \<^verbatim>\<open>onclose\<close>.\<close>

definition channel_onopen :: "nat \<Rightarrow> unit io" where
  "channel_onopen c w =
     (case webrtc w of
        None \<Rightarrow> (Inl TypeError, w)
      | Some m \<Rightarrow>
          bind (if onConnected m then app_onConnected else ret ())
            (\<lambda>_. channel_send c (JSON_stringify (JObj [(js ''type'', JStr (js ''req-identity''))])))
            w)"

definition channel_onmessage :: "nat \<Rightarrow> jsstring \<Rightarrow> unit io" where
  "channel_onmessage now data w =
     (case JSON_parse data of
        Inl e \<Rightarrow> (Inl e, w)
      | Inr msg \<Rightarrow> handleMessage now msg w)"

definition channel_onclose :: "unit io" where
  "channel_onclose w =
     (case webrtc w of
        None \<Rightarrow> (Inl TypeError, w)
      | Some m \<Rightarrow> if onDisconnected m then app_onDisconnected w else (Inr (), w))"

definition set_readyState :: "nat \<Rightarrow> ready_state \<Rightarrow> world \<Rightarrow> world" where
  "set_readyState c r w =
     (case channels w c of
        None \<Rightarrow> w
      | Some ch \<Rightarrow> w\<lparr>channels := (channels w)(c \<mapsto> ch\<lparr>readyState := r\<rparr>)\<rparr>)"

section \<open>WebRTCManager: negotiation\<close>

text \<open>
  The handler \<^verbatim>\<open>onicecandidate\<close> that \<^verbatim>\<open>createOffer\<close> and
  \<^verbatim>\<open>createAnswer\<close> install; \<open>candidate\<close> is \<^verbatim>\<open>event.candidate\<close>, \<open>None\<close>
  for \<^verbatim>\<open>null\<close>, which marks the end of gathering.
\<close>

definition onicecandidate ::
  "(nat \<Rightarrow> cb_action list) \<Rightarrow> nat \<Rightarrow> jsstring option \<Rightarrow> unit io" where
  "onicecandidate body now candidate w =
     (case candidate of
        Some c \<Rightarrow> (Inr (), w)
      | None \<Rightarrow>
          (case webrtc w of
             None \<Rightarrow> (Inl TypeError, w)
           | Some m \<Rightarrow>
               (case localPC m of
                  None \<Rightarrow> (Inl TypeError, w)
                | Some pc \<Rightarrow>
                    (case connections w pc of
                       None \<Rightarrow> (Inl TypeError, w)
                     | Some p \<Rightarrow>
                         (Inr (), webrtc_emit body now (js ''localDescriptionReady'')
                                    (Some (localDescription p)) w)))))"

text \<open>
  \<^verbatim>\<open>createOffer\<close>, \<^verbatim>\<open>handleAnswer\<close> and \<^verbatim>\<open>createAnswer\<close> are asynchronous;
  each is taken here as one step, with nothing else running between its awaits, and
  the browser's own \<^verbatim>\<open>createOffer()\<close>, \<^verbatim>\<open>createAnswer()\<close> and
  \<^verbatim>\<open>setLocalDescription\<close> succeeding.
\<close>

definition createOffer :: "browser \<Rightarrow> lzstring option \<Rightarrow> jsstring io" where
  "createOffer br lz w =
     (case webrtc w of
        None \<Rightarrow> (Inl TypeError, w)
      | Some m \<Rightarrow>
          (let pc = next_ref w; c = Suc (next_ref w); offer = new_description br
           in (Inr (compressDescription lz offer),
               w\<lparr>webrtc := Some (m\<lparr>link_isHost := True, localPC := Some pc, channel := Some c\<rparr>),
                 connections := (connections w)
                   (pc \<mapsto> \<lparr>pc_closed = False, localDescription = offer, remoteDescription = JNull\<rparr>),
                 channels := (channels w)
                   (c \<mapsto> \<lparr>readyState = Connecting, owner = pc,
                          maxMessageSize = sctp_maxMessageSize br, sent = []\<rparr>),
                 next_ref := Suc (Suc (next_ref w))\<rparr>)))"

definition handleAnswer :: "browser \<Rightarrow> lzstring option \<Rightarrow> jsstring \<Rightarrow> unit io" where
  "handleAnswer br lz answerData w =
     (case webrtc w of
        None \<Rightarrow> (Inl TypeError, w)
      | Some m \<Rightarrow>
          (case localPC m of
             None \<Rightarrow> (Inl (Error (js ''No local peer connection'')), w)
           | Some pc \<Rightarrow>
               (case decompressDescription lz answerData of
                  Inl e \<Rightarrow> (Inl e, w)
                | Inr answer \<Rightarrow>
                    (case rejects_remote br answer of
                       Some e \<Rightarrow> (Inl e, w)
                     | None \<Rightarrow>
                         (case connections w pc of
                            None \<Rightarrow> (Inl TypeError, w)
                          | Some p \<Rightarrow>
                              (Inr (), w\<lparr>connections := (connections w)
                                          (pc \<mapsto> p\<lparr>remoteDescription := answer\<rparr>)\<rparr>))))))"

definition createAnswer :: "browser \<Rightarrow> lzstring option \<Rightarrow> jsstring \<Rightarrow> jsstring io" where
  "createAnswer br lz offerData w =
     (case webrtc w of
        None \<Rightarrow> (Inl TypeError, w)
      | Some m \<Rightarrow>
          (let pc = next_ref w;
               w1 = w\<lparr>webrtc := Some (m\<lparr>link_isHost := False, localPC := Some pc\<rparr>),
                      connections := (connections w)
                        (pc \<mapsto> \<lparr>pc_closed = False, localDescription = JNull,
                               remoteDescription = JNull\<rparr>),
                      next_ref := Suc (next_ref w)\<rparr>
           in case decompressDescription lz offerData of
                Inl e \<Rightarrow> (Inl e, w1)
              | Inr offer \<Rightarrow>
                  (case rejects_remote br offer of
                     Some e \<Rightarrow> (Inl e, w1)
                   | None \<Rightarrow>
                       (Inr (compressDescription lz (new_description br)),
                        w1\<lparr>connections := (connections w1)
                             (pc \<mapsto> \<lparr>pc_closed = False, localDescription = new_description br,
                                    remoteDescription = offer\<rparr>)\<rparr>))))"

text \<open>The handler \<^verbatim>\<open>ondatachannel\<close> of the guest's connection \<open>pc\<close>: the browser
  has created the channel, already open, and passes it in the event.\<close>

definition ondatachannel ::
  "browser \<Rightarrow> (nat \<Rightarrow> cb_action list) \<Rightarrow> nat \<Rightarrow> nat \<Rightarrow> unit io" where
  "ondatachannel br body now pc w =
     (case webrtc w of
        None \<Rightarrow> (Inl TypeError, w)
      | Some m \<Rightarrow>
          (Inr (),
           webrtc_emit body now (js ''connected'') None
             (w\<lparr>webrtc := Some (m\<lparr>channel := Some (next_ref w)\<rparr>),
                channels := (channels w)
                  (next_ref w \<mapsto> \<lparr>readyState = Open, owner = pc,
                                  maxMessageSize = sctp_maxMessageSize br, sent = []\<rparr>),
                next_ref := Suc (next_ref w)\<rparr>)))"

section \<open>States used in the examples\<close>

text \<open>The link of the manager is closed when the manager holds neither a channel nor
  a connection, which is how \<^verbatim>\<open>cleanup\<close> leaves it.\<close>

definition link_closed :: "world \<Rightarrow> bool" where
  "link_closed w =
     (case webrtc w of None \<Rightarrow> False | Some m \<Rightarrow> channel m = None \<and> localPC m = None)"

definition page0 :: world where
  "page0 =
     \<lparr>state = initial_state, webrtc = None,
      store = Some \<lparr>sm_state = initial_store_state, sm_listeners = [], invoked = []\<rparr>,
      channels = (\<lambda>c. None), connections = (\<lambda>r. None), next_ref = 0, ui = []\<rparr>"

definition browser0 :: browser where
  "browser0 =
     \<lparr>new_description = JObj [(js ''type'', JStr (js ''offer'')), (js ''sdp'', JStr (js ''v=0''))],
      rejects_remote = (\<lambda>d. None), sctp_maxMessageSize = 262144\<rparr>"

text \<open>A host that has created its group and one offer.\<close>

definition host_offering :: world where
  "host_offering = snd (createOffer browser0 None (ensure_webrtc (initHost page0)))"

text \<open>\<^verbatim>\<open>LZString\<close> gives back what it was given.\<close>

definition lossless :: "lzstring option \<Rightarrow> bool" where
  "lossless lz =
     (case lz of
        None \<Rightarrow> True
      | Some L \<Rightarrow> \<forall>s. decompressFromBase64 L (compressToBase64 L s) = Some s)"

text \<open>A stand-in for the library in examples: it reverses the string.\<close>

definition reversing :: lzstring where
  "reversing = \<lparr>compressToBase64 = rev, decompressFromBase64 = (\<lambda>s. Some (rev s))\<rparr>"

definition offer0 :: json where
  "offer0 =
     JObj [(js ''type'', JStr (js ''offer'')), (js ''sdp'', JStr (js ''v=0'' @ [0x0D, 0x0A]))]"

definition user_ann :: json where
  "user_ann = JObj [(js ''id'', JStr (js ''u1'')), (js ''name'', JStr (js ''Ann'')),
                    (js ''avatar'', JStr [])]"

definition user_bob :: json where
  "user_bob = JObj [(js ''id'', JStr (js ''u2'')), (js ''name'', JStr (js ''Bob'')),
                    (js ''avatar'', JStr [])]"

definition user_cy :: json where
  "user_cy = JObj [(js ''id'', JStr (js ''u3'')), (js ''name'', JStr (js ''Cy'')),
                   (js ''avatar'', JStr [])]"

definition user_hal :: json where
  "user_hal = JObj [(js ''id'', JStr (js ''u0'')), (js ''name'', JStr (js ''Hal'')),
                    (js ''avatar'', JStr [])]"

definition installed :: "nat option \<Rightarrow> nat option \<Rightarrow> bool \<Rightarrow> WebRTCManager" where
  "installed pc c host =
     \<lparr>localPC = pc, hostPC = None, channel = c, link_isHost = host,
      onMessage = True, onPeerJoin = True, onPeerLeave = True,
      onConnected = True, onDisconnected = True, onIdentityRequest = True\<rparr>"

definition open_channel :: "nat \<Rightarrow> nat \<Rightarrow> data_channel" where
  "open_channel pc limit = \<lparr>readyState = Open, owner = pc, maxMessageSize = limit, sent = []\<rparr>"

definition live_connection :: peer_connection where
  "live_connection = \<lparr>pc_closed = False, localDescription = offer0, remoteDescription = offer0\<rparr>"

text \<open>A host, Hal, with the peers Ann, Bob and Cy, each on an open channel of its own
  (1, 3 and 5); the manager holds the channel of the last invitation.\<close>

definition host_abc :: world where
  "host_abc =
     \<lparr>state = \<lparr>user = user_hal, isHost = True, isConnected = True,
               peers = [(js ''1700000000001'', \<lparr>peer_user = Some user_ann, peer_channel = Some 1\<rparr>),
                        (js ''1700000000002'', \<lparr>peer_user = Some user_bob, peer_channel = Some 3\<rparr>),
                        (js ''1700000000003'', \<lparr>peer_user = Some user_cy, peer_channel = Some 5\<rparr>)],
               currentScreen = js ''chat'', isReady = True\<rparr>,
      webrtc = Some (installed (Some 4) (Some 5) True),
      store = None,
      channels = map_of [(1, open_channel 0 262144), (3, open_channel 2 262144),
                         (5, open_channel 4 262144)],
      connections = map_of [(0, live_connection), (2, live_connection), (4, live_connection)],
      next_ref = 6, ui = []\<rparr>"

text \<open>A guest, Bob, whose channel to the host is open and whose registry is empty;
  \<open>limit\<close> is the largest message the channel takes.\<close>

definition guest_bob :: "nat \<Rightarrow> world" where
  "guest_bob limit =
     \<lparr>state = \<lparr>user = user_bob, isHost = False, isConnected = True, peers = [],
               currentScreen = js ''chat'', isReady = True\<rparr>,
      webrtc = Some (installed (Some 0) (Some 1) False),
      store = None,
      channels = map_of [(1, open_channel 0 limit)],
      connections = map_of [(0, live_connection)],
      next_ref = 2, ui = []\<rparr>"

text \<open>The frames of the examples, before \<^verbatim>\<open>JSON.stringify\<close>: a chat message
  written by Ann, and the identity envelopes of Ann and of the host Hal.\<close>

definition chat_from_ann :: "json obj" where
  "chat_from_ann =
     [(js ''type'', JStr (js ''chat'')), (js ''text'', JStr (js ''hi'')), (js ''user'', user_ann)]"

definition identity_of_ann :: "json obj" where
  "identity_of_ann = [(js ''type'', JStr (js ''identity'')), (js ''user'', user_ann)]"

definition identity_of_hal :: "json obj" where
  "identity_of_hal = [(js ''type'', JStr (js ''identity'')), (js ''user'', user_hal)]"

text \<open>An action that takes a listener of \<open>event\<close> away.\<close>

definition removes_from :: "jsstring \<Rightarrow> cb_action \<Rightarrow> bool" where
  "removes_from event a = (case a of Unsubscribe e c \<Rightarrow> e = event | Subscribe e c \<Rightarrow> False)"

text \<open>A store with two listeners, 0 and 1, of the event \<open>update\<close>, and two tables
  of what the listeners do: in \<open>self_removing\<close> listener 0 unsubscribes itself, in
  \<open>subscribing\<close> it subscribes a third listener and listener 1 unsubscribes from
  another event.\<close>

definition two_listeners :: "store_value StateManager" where
  "two_listeners =
     \<lparr>sm_state = initial_store_state, sm_listeners = [(js ''update'', [0, 1])], invoked = []\<rparr>"

definition self_removing :: "nat \<Rightarrow> cb_action list" where
  "self_removing cb = (if cb = 0 then [Unsubscribe (js ''update'') 0] else [])"

definition subscribing :: "nat \<Rightarrow> cb_action list" where
  "subscribing cb =
     (if cb = 0 then [Subscribe (js ''update'') 2]
      else if cb = 1 then [Unsubscribe (js ''isReady:change'') 0]
      else [])"

text \<open>A guest session as the program reaches it from a fresh page: \<^verbatim>\<open>initJoin\<close>,
  the scan of the host's offer (\<^verbatim>\<open>handleScan\<close> creates the manager and calls
  \<^verbatim>\<open>createAnswer\<close>), the browser announcing the host's data channel, and the
  channel opening.\<close>

definition guest_answering :: world where
  "guest_answering =
     snd (createAnswer browser0 None (compressDescription None offer0)
            (ensure_webrtc (initJoin page0)))"

definition guest_joined :: world where
  "guest_joined =
     snd (channel_onopen 1 (snd (ondatachannel browser0 (\<lambda>cb. []) 1700000000000 0 guest_answering)))"

section \<open>\<^verbatim>\<open>JSON.parse\<close> reads back what \<^verbatim>\<open>JSON.stringify\<close> prints\<close>

lemma hex_val_hex_digit: "d < 16 \<Longrightarrow> hex_val (hex_digit d) = Some d"
proof -
  assume "d < 16"
  then have "d = 0 \<or> d = 1 \<or> d = 2 \<or> d = 3 \<or> d = 4 \<or> d = 5 \<or> d = 6 \<or> d = 7 \<or> d = 8
      \<or> d = 9 \<or> d = 10 \<or> d = 11 \<or> d = 12 \<or> d = 13 \<or> d = 14 \<or> d = 15"
    by arith
  then show ?thesis
    by (elim disjE) (simp_all add: hex_val_def hex_digit_def)
qed

lemma nibbles:
   "((n div 4096 * 16 + n div 256 mod 16) * 16 + n div 16 mod 16) * 16 + n mod 16 = (n::nat)"
proof -
  have a: "n div 16 * 16 + n mod 16 = n" by simp
  have "n div 16 div 16 = n div 256" by (simp add: div_mult2_eq)
  then have b: "n div 256 * 16 + n div 16 mod 16 = n div 16"
    using div_mult_mod_eq [of "n div 16" 16] by simp
  have "n div 256 div 16 = n div 4096" by (simp add: div_mult2_eq)
  then have c: "n div 4096 * 16 + n div 256 mod 16 = n div 256"
    using div_mult_mod_eq [of "n div 256" 16] by simp
  show ?thesis
    by (simp only: a b c)
qed

lemma hex4_unicode_escape:
  "hex4 (hex_digit (unat c div 4096)) (hex_digit (unat c div 256 mod 16))
        (hex_digit (unat c div 16 mod 16)) (hex_digit (unat c mod 16)) = Some (c :: 16 word)"
proof -
  have "unat c < 65536"
    using unsigned_less [of c] by simp
  then have "unat c div 4096 < 16" by simp
  then have h3: "hex_val (hex_digit (unat c div 4096)) = Some (unat c div 4096)"
    by (rule hex_val_hex_digit)
  have h2: "hex_val (hex_digit (unat c div 256 mod 16)) = Some (unat c div 256 mod 16)"
    by (rule hex_val_hex_digit) simp
  have h1: "hex_val (hex_digit (unat c div 16 mod 16)) = Some (unat c div 16 mod 16)"
    by (rule hex_val_hex_digit) simp
  have h0: "hex_val (hex_digit (unat c mod 16)) = Some (unat c mod 16)"
    by (rule hex_val_hex_digit) simp
  have same: "(of_nat (unat c) :: 16 word) = c" by simp
  show ?thesis
    unfolding hex4_def h3 h2 h1 h0 by (simp only: option.case nibbles same)
qed

lemma parse_chars_literal:
  "c \<noteq> 0x22 \<Longrightarrow> c \<noteq> 0x5C \<Longrightarrow> \<not> c < 0x20 \<Longrightarrow>
   parse_chars (c # rest) = cons_unit c (parse_chars rest)"
  by simp

lemma parse_escape_unit:
  "parse_chars (escape_unit c @ rest) = cons_unit c (parse_chars rest)"
proof -
  have esc: "parse_chars (unicode_escape c @ rest) = cons_unit c (parse_chars rest)"
    by (simp add: unicode_escape_def hex4_unicode_escape)
  show ?thesis
    unfolding escape_unit_def
    by (auto simp: esc unescape_def)
qed

lemma surrogate_literal:
  "is_leading_surrogate c \<or> is_trailing_surrogate c \<Longrightarrow>
   c \<noteq> 0x22 \<and> c \<noteq> 0x5C \<and> \<not> c < 0x20"
  by (auto simp: is_leading_surrogate_def is_trailing_surrogate_def word_le_nat_alt
      word_less_nat_alt)

lemma parse_quote_units:
  "parse_chars (quote_units s @ 0x22 # rest) = Inr (s, rest)"
proof (induction s rule: quote_units.induct)
  case 1
  show ?case by simp
next
  case (2 c)
  have "parse_chars (escape_unit c @ 0x22 # rest) = cons_unit c (parse_chars (0x22 # rest))"
    by (rule parse_escape_unit)
  then show ?case by (simp add: cons_unit_def)
next
  case (3 c d cs)
  show ?case
  proof (cases "is_leading_surrogate c \<and> is_trailing_surrogate d")
    case True
    then have ih: "parse_chars (quote_units cs @ 0x22 # rest) = Inr (cs, rest)"
      using 3 by blast
    have c: "c \<noteq> 0x22" "c \<noteq> 0x5C" "\<not> c < 0x20"
      using True surrogate_literal [of c] by blast+
    have d: "d \<noteq> 0x22" "d \<noteq> 0x5C" "\<not> d < 0x20"
      using True surrogate_literal [of d] by blast+
    have "quote_units (c # d # cs) @ 0x22 # rest = c # d # quote_units cs @ 0x22 # rest"
      using True by simp
    then show ?thesis
      by (simp only: parse_chars_literal [OF c] parse_chars_literal [OF d] ih)
        (simp add: cons_unit_def)
  next
    case False
    then have ih: "parse_chars (quote_units (d # cs) @ 0x22 # rest) = Inr (d # cs, rest)"
      using 3 by blast
    have "quote_units (c # d # cs) @ 0x22 # rest
        = escape_unit c @ quote_units (d # cs) @ 0x22 # rest"
      using False by auto
    then show ?thesis
      by (simp only: parse_escape_unit ih) (simp add: cons_unit_def)
  qed
qed

lemma own_keys_ordered_prefix: "own_keys_ordered (ks @ ks') \<Longrightarrow> own_keys_ordered ks"
proof (induction ks rule: own_keys_ordered.induct)
  case 1
  show ?case by simp
next
  case (2 k)
  show ?case by simp
next
  case (3 k k' ks)
  then show ?case by simp
qed

lemma index_below_trans:
  "index_below j k \<Longrightarrow> j < i \<Longrightarrow> index_below i k"
  by (auto simp: index_below_def split: option.splits)

lemma ordered_last_index:
  "own_keys_ordered (ks @ [k]) \<Longrightarrow> array_index k = Some i \<Longrightarrow> list_all (index_below i) ks"
proof (induction ks rule: own_keys_ordered.induct)
  case 1
  show ?case by simp
next
  case (2 k1)
  then show ?case by simp
next
  case (3 k1 k2 ks)
  from 3 have rest: "list_all (index_below i) (k2 # ks)" by simp
  then obtain j where j: "array_index k2 = Some j" "j < i"
    by (auto simp: index_below_def split: option.splits)
  from 3(2) j have "index_below j k1" by simp
  with j have "index_below i k1" by (auto intro: index_below_trans)
  with rest show ?case by simp
qed

lemma obj_set_new_last:
  assumes "k \<notin> set (map fst acc)" and "own_keys_ordered (map fst acc @ [k])"
  shows "obj_set k v acc = acc @ [(k, v)]"
proof (cases "array_index k")
  case None
  with assms show ?thesis by (simp add: obj_set_def obj_insert_def)
next
  case (Some i)
  with assms(2) have "list_all (index_below i) (map fst acc)"
    by (rule ordered_last_index)
  then have all: "\<forall>p\<in>set acc. index_below i (fst p)"
    by (simp add: list_all_iff)
  then have "takeWhile (\<lambda>p. index_below i (fst p)) acc = acc"
    and "dropWhile (\<lambda>p. index_below i (fst p)) acc = []"
    by simp_all
  with assms(1) Some show ?thesis by (simp add: obj_set_def obj_insert_def)
qed

lemma obj_spread_ordered:
  "distinct (map fst (acc @ ps)) \<Longrightarrow> own_keys_ordered (map fst (acc @ ps)) \<Longrightarrow>
   obj_spread acc ps = acc @ ps"
proof (induction ps arbitrary: acc)
  case Nil
  show ?case by (simp add: obj_spread_def)
next
  case (Cons p ps)
  have new: "fst p \<notin> set (map fst acc)"
    using Cons.prems(1) by auto
  have "own_keys_ordered ((map fst acc @ [fst p]) @ map fst ps)"
    using Cons.prems(2) by simp
  then have "own_keys_ordered (map fst acc @ [fst p])"
    by (rule own_keys_ordered_prefix)
  with new have step: "obj_set (fst p) (snd p) acc = acc @ [p]"
    by (simp add: obj_set_new_last)
  have "obj_spread (acc @ [p]) ps = (acc @ [p]) @ ps"
    using Cons.prems by (intro Cons.IH) simp_all
  with step show ?case by (simp add: obj_spread_def)
qed

lemma skip_ws_not_ws: "\<not> is_ws c \<Longrightarrow> skip_ws (c # s) = c # s"
  by (simp add: skip_ws_def)

lemma stringify_first:
  "\<exists>c cs. JSON_stringify v = c # cs \<and> \<not> is_ws c \<and> c \<noteq> 0x5D \<and> c \<noteq> 0x7D"
  by (cases v) (auto simp: js_def QuoteJSONString_def is_ws_def)

lemma stringify_elems_first:
  "xs \<noteq> [] \<Longrightarrow>
   \<exists>c cs. stringify_elems xs = c # cs \<and> \<not> is_ws c \<and> c \<noteq> 0x5D \<and> c \<noteq> 0x7D"
proof (cases xs)
  case Nil
  then show "xs \<noteq> [] \<Longrightarrow> ?thesis" by simp
next
  case (Cons x ys)
  obtain c cs where "JSON_stringify x = c # cs" "\<not> is_ws c" "c \<noteq> 0x5D" "c \<noteq> 0x7D"
    using stringify_first by blast
  with Cons show ?thesis by (cases ys) auto
qed

lemma stringify_members_first:
  "ps \<noteq> [] \<Longrightarrow> \<exists>cs. stringify_members ps = 0x22 # cs"
proof (cases ps)
  case Nil
  then show "ps \<noteq> [] \<Longrightarrow> ?thesis" by simp
next
  case (Cons p qs)
  then show ?thesis by (cases qs) (auto simp: QuoteJSONString_def)
qed

lemma parse_value_literal:
  "parse_value (Suc n) (JSON_stringify JNull @ r) = Inr (JNull, r)"
  "parse_value (Suc n) (JSON_stringify (JBool b) @ r) = Inr (JBool b, r)"
  by (simp_all add: js_def skip_ws_def is_ws_def)

lemma parse_value_string:
  "parse_value (Suc n) (JSON_stringify (JStr s) @ r) = Inr (JStr s, r)"
  by (simp add: QuoteJSONString_def skip_ws_def is_ws_def parse_quote_units
      del: parse_chars.simps)

lemma parse_value_empty:
  "parse_value (Suc n) (JSON_stringify (JArr []) @ r) = Inr (JArr [], r)"
  "parse_value (Suc n) (JSON_stringify (JObj []) @ r) = Inr (JObj [], r)"
  by (simp_all add: skip_ws_def is_ws_def)

lemma parse_value_array:
  assumes "xs \<noteq> []"
  shows "parse_value (Suc n) (JSON_stringify (JArr xs) @ r)
       = parse_elems n [] (stringify_elems xs @ 0x5D # r)"
proof -
  obtain c cs where c: "stringify_elems xs = c # cs" "\<not> is_ws c" "c \<noteq> 0x5D"
    using stringify_elems_first [OF assms] by blast
  have ws: "\<not> is_ws (0x5B :: 16 word)" by (simp add: is_ws_def)
  show ?thesis
    using c by (simp add: skip_ws_not_ws ws)
qed

lemma parse_value_object:
  assumes "ps \<noteq> []"
  shows "parse_value (Suc n) (JSON_stringify (JObj ps) @ r)
       = parse_members n [] (stringify_members ps @ 0x7D # r)"
proof -
  obtain cs where c: "stringify_members ps = 0x22 # cs"
    using stringify_members_first [OF assms] by blast
  have ws: "\<not> is_ws (0x7B :: 16 word)" "\<not> is_ws (0x22 :: 16 word)" by (simp_all add: is_ws_def)
  show ?thesis
    using c by (simp add: skip_ws_not_ws ws)
qed

lemma parse_elems_last:
  "parse_value n s = Inr (v, 0x5D # r) \<Longrightarrow>
   parse_elems (Suc n) acc s = Inr (JArr (acc @ [v]), r)"
  by (simp add: skip_ws_def is_ws_def)

lemma parse_elems_more:
  "parse_value n s = Inr (v, 0x2C # r) \<Longrightarrow>
   parse_elems (Suc n) acc s = parse_elems n (acc @ [v]) r"
  by (simp add: skip_ws_def is_ws_def)

lemma parse_members_key:
  "parse_members (Suc n) acc (QuoteJSONString k @ 0x3A # s) =
     (case parse_value n s of
        Inl e \<Rightarrow> Inl e
      | Inr (v, r3) \<Rightarrow>
          (case skip_ws r3 of
             [] \<Rightarrow> Inl SyntaxError
           | c3 # r4 \<Rightarrow>
               if c3 = 0x2C then parse_members n (obj_set k v acc) r4
               else if c3 = 0x7D then Inr (JObj (obj_set k v acc), r4)
               else Inl SyntaxError))"
  by (simp add: QuoteJSONString_def skip_ws_def is_ws_def parse_quote_units
      del: parse_chars.simps)

lemma parse_members_last:
  "parse_value n s = Inr (v, 0x7D # r) \<Longrightarrow>
   parse_members (Suc n) acc (QuoteJSONString k @ 0x3A # s) = Inr (JObj (obj_set k v acc), r)"
  by (simp add: parse_members_key skip_ws_def is_ws_def del: parse_members.simps)

lemma parse_members_more:
  "parse_value n s = Inr (v, 0x2C # r) \<Longrightarrow>
   parse_members (Suc n) acc (QuoteJSONString k @ 0x3A # s) = parse_members n (obj_set k v acc) r"
  by (simp add: parse_members_key skip_ws_def is_ws_def del: parse_members.simps)

lemma parse_stringify:
  "(wf_json v \<longrightarrow>
      (\<forall>n r. length (JSON_stringify v) \<le> n \<longrightarrow>
         parse_value n (JSON_stringify v @ r) = Inr (v, r)))"
  "(wf_elems xs \<longrightarrow> xs \<noteq> [] \<longrightarrow>
      (\<forall>n acc r. Suc (length (stringify_elems xs)) \<le> n \<longrightarrow>
         parse_elems n acc (stringify_elems xs @ 0x5D # r) = Inr (JArr (acc @ xs), r)))"
  "(wf_members ps \<longrightarrow> ps \<noteq> [] \<longrightarrow>
      (\<forall>n acc r. Suc (length (stringify_members ps)) \<le> n \<longrightarrow>
         parse_members n acc (stringify_members ps @ 0x7D # r)
           = Inr (JObj (obj_spread acc ps), r)))"
proof (induction v and xs and ps rule: JSON_stringify_stringify_elems_stringify_members.induct)
  case 1
  show ?case
  proof (intro impI allI)
    fix n r assume "length (JSON_stringify JNull) \<le> n"
    then obtain m where "n = Suc m" by (cases n) (simp_all add: js_def)
    then show "parse_value n (JSON_stringify JNull @ r) = Inr (JNull, r)"
      by (simp only: parse_value_literal)
  qed
next
  case (2 b)
  show ?case
  proof (intro impI allI)
    fix n r assume "length (JSON_stringify (JBool b)) \<le> n"
    then obtain m where "n = Suc m" by (cases n) (simp_all add: js_def split: if_splits)
    then show "parse_value n (JSON_stringify (JBool b) @ r) = Inr (JBool b, r)"
      by (simp only: parse_value_literal)
  qed
next
  case (3 s)
  show ?case
  proof (intro impI allI)
    fix n r assume "length (JSON_stringify (JStr s)) \<le> n"
    then obtain m where "n = Suc m" by (cases n) (simp_all add: QuoteJSONString_def)
    then show "parse_value n (JSON_stringify (JStr s) @ r) = Inr (JStr s, r)"
      by (simp only: parse_value_string)
  qed
next
  case (4 xs)
  show ?case
  proof (intro impI allI)
    fix n r assume wf: "wf_json (JArr xs)" and n: "length (JSON_stringify (JArr xs)) \<le> n"
    from n obtain m where m: "n = Suc m" by (cases n) simp_all
    show "parse_value n (JSON_stringify (JArr xs) @ r) = Inr (JArr xs, r)"
    proof (cases "xs = []")
      case True
      show ?thesis unfolding m True by (rule parse_value_empty)
    next
      case False
      from n m have "Suc (length (stringify_elems xs)) \<le> m" by simp
      with 4 wf False
      have "parse_elems m [] (stringify_elems xs @ 0x5D # r) = Inr (JArr ([] @ xs), r)"
        by simp
      then show ?thesis
        unfolding m parse_value_array [OF False] by simp
    qed
  qed
next
  case (5 ps)
  show ?case
  proof (intro impI allI)
    fix n r assume wf: "wf_json (JObj ps)" and n: "length (JSON_stringify (JObj ps)) \<le> n"
    from n obtain m where m: "n = Suc m" by (cases n) simp_all
    show "parse_value n (JSON_stringify (JObj ps) @ r) = Inr (JObj ps, r)"
    proof (cases "ps = []")
      case True
      show ?thesis unfolding m True by (rule parse_value_empty)
    next
      case False
      from n m have "Suc (length (stringify_members ps)) \<le> m" by simp
      with 5 wf False
      have "parse_members m [] (stringify_members ps @ 0x7D # r)
          = Inr (JObj (obj_spread [] ps), r)"
        by simp
      moreover have "obj_spread [] ps = [] @ ps"
        using wf by (intro obj_spread_ordered) simp_all
      ultimately show ?thesis
        unfolding m parse_value_object [OF False] by simp
    qed
  qed
next
  case 6
  show ?case by simp
next
  case (7 x)
  show ?case
  proof (intro impI allI)
    fix n acc r
    assume wf: "wf_elems [x]" and n: "Suc (length (stringify_elems [x])) \<le> n"
    from n obtain m where m: "n = Suc m" by (cases n) simp_all
    with n have "length (JSON_stringify x) \<le> m" by simp
    with 7 wf have "parse_value m (JSON_stringify x @ 0x5D # r) = Inr (x, 0x5D # r)"
      by simp
    then have "parse_elems (Suc m) acc (JSON_stringify x @ 0x5D # r) = Inr (JArr (acc @ [x]), r)"
      by (rule parse_elems_last)
    with m show "parse_elems n acc (stringify_elems [x] @ 0x5D # r) = Inr (JArr (acc @ [x]), r)"
      by simp
  qed
next
  case (8 x y ys)
  show ?case
  proof (intro impI allI)
    fix n acc r
    assume wf: "wf_elems (x # y # ys)"
      and n: "Suc (length (stringify_elems (x # y # ys))) \<le> n"
    from n obtain m where m: "n = Suc m" by (cases n) simp_all
    let ?rest = "stringify_elems (y # ys) @ 0x5D # r"
    from n m have "length (JSON_stringify x) \<le> m" by simp
    with 8 wf have "parse_value m (JSON_stringify x @ 0x2C # ?rest) = Inr (x, 0x2C # ?rest)"
      by simp
    then have "parse_elems (Suc m) acc (JSON_stringify x @ 0x2C # ?rest)
        = parse_elems m (acc @ [x]) ?rest"
      by (rule parse_elems_more)
    moreover from n m have "Suc (length (stringify_elems (y # ys))) \<le> m" by simp
    with 8 wf have "parse_elems m (acc @ [x]) ?rest = Inr (JArr ((acc @ [x]) @ y # ys), r)"
      by simp
    ultimately show "parse_elems n acc (stringify_elems (x # y # ys) @ 0x5D # r)
        = Inr (JArr (acc @ x # y # ys), r)"
      using m by simp
  qed
next
  case 9
  show ?case by simp
next
  case (10 p)
  show ?case
  proof (intro impI allI)
    fix n acc r
    assume wf: "wf_members [p]" and n: "Suc (length (stringify_members [p])) \<le> n"
    from n obtain m where m: "n = Suc m" by (cases n) simp_all
    with n have "length (JSON_stringify (snd p)) \<le> m" by simp
    with 10 wf
    have "parse_value m (JSON_stringify (snd p) @ 0x7D # r) = Inr (snd p, 0x7D # r)"
      by simp
    then have "parse_members (Suc m) acc
        (QuoteJSONString (fst p) @ 0x3A # JSON_stringify (snd p) @ 0x7D # r)
        = Inr (JObj (obj_set (fst p) (snd p) acc), r)"
      by (rule parse_members_last)
    with m show "parse_members n acc (stringify_members [p] @ 0x7D # r)
        = Inr (JObj (obj_spread acc [p]), r)"
      by (simp add: obj_spread_def del: parse_members.simps)
  qed
next
  case (11 p q ps)
  show ?case
  proof (intro impI allI)
    fix n acc r
    assume wf: "wf_members (p # q # ps)"
      and n: "Suc (length (stringify_members (p # q # ps))) \<le> n"
    from n obtain m where m: "n = Suc m" by (cases n) simp_all
    let ?rest = "stringify_members (q # ps) @ 0x7D # r"
    from n m have "length (JSON_stringify (snd p)) \<le> m" by simp
    with 11 wf
    have "parse_value m (JSON_stringify (snd p) @ 0x2C # ?rest) = Inr (snd p, 0x2C # ?rest)"
      by simp
    then have "parse_members (Suc m) acc
        (QuoteJSONString (fst p) @ 0x3A # JSON_stringify (snd p) @ 0x2C # ?rest)
        = parse_members m (obj_set (fst p) (snd p) acc) ?rest"
      by (rule parse_members_more)
    moreover from n m have "Suc (length (stringify_members (q # ps))) \<le> m" by simp
    with 11 wf have "parse_members m (obj_set (fst p) (snd p) acc) ?rest
        = Inr (JObj (obj_spread (obj_set (fst p) (snd p) acc) (q # ps)), r)"
      by simp
    ultimately show "parse_members n acc (stringify_members (p # q # ps) @ 0x7D # r)
        = Inr (JObj (obj_spread acc (p # q # ps)), r)"
      using m by (simp add: obj_spread_def del: parse_members.simps)
  qed
qed

lemma JSON_roundtrip: "wf_json v \<Longrightarrow> JSON_parse (JSON_stringify v) = Inr v"
proof -
  assume wf: "wf_json v"
  have "length (JSON_stringify v) \<le> Suc (2 * length (JSON_stringify v))" by simp
  with wf parse_stringify(1) [of v]
  have "parse_value (Suc (2 * length (JSON_stringify v))) (JSON_stringify v @ []) = Inr (v, [])"
    by blast
  then have "parse_value (Suc (2 * length (JSON_stringify v))) (JSON_stringify v) = Inr (v, [])"
    by (simp only: append_Nil2)
  then show ?thesis
    by (simp add: JSON_parse_def skip_ws_def del: parse_value.simps)
qed

section \<open>The recursion budget of the JSON reader is never used up\<close>

lemma cons_unit_Inr: "cons_unit u res = Inr (s, r) \<Longrightarrow> \<exists>s'. res = Inr (s', r)"
  by (auto simp: cons_unit_def split: sum.splits prod.splits)

lemma parse_chars_shorter: "parse_chars s = Inr (str, r) \<Longrightarrow> length r < length s"
proof (induction s arbitrary: str r rule: parse_chars.induct)
  case 1
  then show ?case by simp
next
  case (2 c s)
  show ?case
  proof (cases "c = 0x22")
    case True
    with "2.prems" show ?thesis by simp
  next
    case quote: False
    show ?thesis
    proof (cases "c = 0x5C")
      case False
      with quote "2.prems" obtain s' where "parse_chars s = Inr (s', r)"
        by (auto split: if_splits dest: cons_unit_Inr)
      with "2.IH"(3) [OF quote False] "2.prems" quote False show ?thesis
        by (auto split: if_splits)
    next
      case True
      show ?thesis
      proof (cases s)
        case Nil
        with True quote "2.prems" show ?thesis by simp
      next
        case (Cons e r')
        show ?thesis
        proof (cases "e = 0x75")
          case False
          with True quote Cons "2.prems" obtain u s' where
            "unescape e = Some u" "parse_chars r' = Inr (s', r)"
            by (auto split: option.splits dest: cons_unit_Inr)
          with "2.IH"(2) [OF quote True Cons False] Cons show ?thesis
            by fastforce
        next
          case u: True
          with True quote Cons "2.prems" obtain x3 x2 x1 x0 r'' v s' where
            r': "r' = x3 # x2 # x1 # x0 # r''" and "hex4 x3 x2 x1 x0 = Some v"
            and "parse_chars r'' = Inr (s', r)"
            by (auto split: list.splits option.splits dest: cons_unit_Inr)
          with "2.IH"(1) [OF quote True Cons u] Cons show ?thesis
            by fastforce
        qed
      qed
    qed
  qed
qed

lemma skip_ws_length: "length (skip_ws s) \<le> length s"
  by (simp add: skip_ws_def length_dropWhile_le)

lemma skip_ws_Cons: "skip_ws s = c # r \<Longrightarrow> length r < length s"
  using skip_ws_length [of s] by simp

lemma parse_shorter:
  "(\<forall>s v r. parse_value n s = Inr (v, r) \<longrightarrow> length r < length s)
   \<and> (\<forall>acc s v r. parse_elems n acc s = Inr (v, r) \<longrightarrow> length r < length s)
   \<and> (\<forall>acc s v r. parse_members n acc s = Inr (v, r) \<longrightarrow> length r < length s)"
proof (induction n)
  case 0
  show ?case by simp
next
  case (Suc n)
  have vals: "length r < length s" if "parse_value n s = Inr (v, r)" for s v r
    using Suc that by blast
  have elems: "length r < length s" if "parse_elems n acc s = Inr (v, r)" for acc s v r
    using Suc that by blast
  have members: "length r < length s" if "parse_members n acc s = Inr (v, r)" for acc s v r
    using Suc that by blast
  have "length r < length s" if p: "parse_value (Suc n) s = Inr (v, r)" for s v r
  proof (cases "skip_ws s")
    case Nil
    with p show ?thesis by simp
  next
    case (Cons c t)
    then have t: "length t < length s" by (rule skip_ws_Cons)
    consider (str) "c = 0x22" | (arr) "c \<noteq> 0x22" "c = 0x5B" | (obj) "c \<noteq> 0x22" "c \<noteq> 0x5B" "c = 0x7B"
      | (lit) "c \<noteq> 0x22" "c \<noteq> 0x5B" "c \<noteq> 0x7B"
      by blast
    then show ?thesis
    proof cases
      case str
      with p Cons obtain k where "parse_chars t = Inr (k, r)"
        by (auto split: sum.splits)
      then have "length r < length t" by (rule parse_chars_shorter)
      with t show ?thesis by simp
    next
      case arr
      show ?thesis
      proof (cases "skip_ws t")
        case Nil
        with p Cons arr show ?thesis by simp
      next
        case inner: (Cons d t')
        then have "length t' < length t" by (rule skip_ws_Cons)
        moreover have "length r < length t" if "parse_elems n [] t = Inr (v, r)"
          using that by (rule elems)
        ultimately show ?thesis
          using p Cons arr inner t by (auto split: if_splits)
      qed
    next
      case obj
      show ?thesis
      proof (cases "skip_ws t")
        case Nil
        with p Cons obj show ?thesis by simp
      next
        case inner: (Cons d t')
        then have "length t' < length t" by (rule skip_ws_Cons)
        moreover have "length r < length t" if "parse_members n [] t = Inr (v, r)"
          using that by (rule members)
        ultimately show ?thesis
          using p Cons obj inner t by (auto split: if_splits)
      qed
    next
      case lit
      with p Cons t show ?thesis
        by (auto split: if_splits)
    qed
  qed
  moreover have "length r < length s" if p: "parse_elems (Suc n) acc s = Inr (v, r)" for acc s v r
  proof -
    from p obtain x t where x: "parse_value n s = Inr (x, t)"
      by (auto split: sum.splits)
    then have t: "length t < length s" by (rule vals)
    show ?thesis
    proof (cases "skip_ws t")
      case Nil
      with p x show ?thesis by simp
    next
      case (Cons c t')
      then have t': "length t' < length t" by (rule skip_ws_Cons)
      have "length r < length t'" if "parse_elems n (acc @ [x]) t' = Inr (v, r)"
        using that by (rule elems)
      with p x Cons t t' show ?thesis
        by (auto split: if_splits)
    qed
  qed
  moreover have "length r < length s" if p: "parse_members (Suc n) acc s = Inr (v, r)"
    for acc s v r
  proof (cases "skip_ws s")
    case Nil
    with p show ?thesis by simp
  next
    case (Cons c t)
    then have t: "length t < length s" by (rule skip_ws_Cons)
    from p Cons have c: "c = 0x22"
      by (auto split: if_splits)
    with p Cons obtain k t1 where k: "parse_chars t = Inr (k, t1)"
      by (auto split: sum.splits)
    then have t1: "length t1 < length t" by (rule parse_chars_shorter)
    show ?thesis
    proof (cases "skip_ws t1")
      case Nil
      with p Cons c k show ?thesis by simp
    next
      case colon: (Cons c1 t2)
      then have t2: "length t2 < length t1" by (rule skip_ws_Cons)
      from p Cons c k colon have c1: "c1 = 0x3A"
        by (auto split: if_splits)
      with p Cons c k colon obtain x t3 where x: "parse_value n t2 = Inr (x, t3)"
        by (auto split: sum.splits)
      then have t3: "length t3 < length t2" by (rule vals)
      show ?thesis
      proof (cases "skip_ws t3")
        case Nil
        with p Cons c k colon c1 x show ?thesis by simp
      next
        case sep: (Cons c3 t4)
        then have t4: "length t4 < length t3" by (rule skip_ws_Cons)
        have "length r < length t4" if "parse_members n (obj_set k x acc) t4 = Inr (v, r)"
          using that by (rule members)
        with p Cons c k colon c1 x sep t t1 t2 t3 t4 show ?thesis
          by (auto split: if_splits)
      qed
    qed
  qed
  ultimately show ?case by blast
qed

lemma cons_unit_Inl: "cons_unit u res = Inl e \<Longrightarrow> res = Inl e"
  by (auto simp: cons_unit_def split: sum.splits prod.splits)

lemma parse_chars_error: "parse_chars s = Inl e \<Longrightarrow> e = SyntaxError"
proof (induction s rule: parse_chars.induct)
  case 1
  then show ?case by simp
next
  case (2 c s)
  show ?case
  proof (cases "c = 0x22")
    case True
    with "2.prems" show ?thesis by simp
  next
    case quote: False
    show ?thesis
    proof (cases "c = 0x5C")
      case False
      with quote "2.prems" "2.IH"(3) [OF quote False] show ?thesis
        by (auto split: if_splits dest: cons_unit_Inl)
    next
      case True
      show ?thesis
      proof (cases s)
        case Nil
        with True quote "2.prems" show ?thesis by simp
      next
        case (Cons e' r')
        show ?thesis
        proof (cases "e' = 0x75")
          case False
          with True quote Cons "2.prems" "2.IH"(2) [OF quote True Cons False] show ?thesis
            by (auto split: option.splits dest: cons_unit_Inl)
        next
          case u: True
          with True quote Cons "2.prems" "2.IH"(1) [OF quote True Cons u] show ?thesis
            by (auto split: list.splits option.splits dest: cons_unit_Inl)
        qed
      qed
    qed
  qed
qed

lemma fuel_suffices:
  "(\<forall>s. 2 * length s < n \<longrightarrow> parse_value n s \<noteq> Inl OutOfFuel)
   \<and> (\<forall>acc s. 2 * length s + 1 < n \<longrightarrow> parse_elems n acc s \<noteq> Inl OutOfFuel)
   \<and> (\<forall>acc s. 2 * length s < n \<longrightarrow> parse_members n acc s \<noteq> Inl OutOfFuel)"
proof (induction n)
  case 0
  show ?case by simp
next
  case (Suc n)
  have vals: "parse_value n s \<noteq> Inl OutOfFuel" if "2 * length s < n" for s
    using Suc that by blast
  have elems: "parse_elems n acc s \<noteq> Inl OutOfFuel" if "2 * length s + 1 < n" for acc s
    using Suc that by blast
  have members: "parse_members n acc s \<noteq> Inl OutOfFuel" if "2 * length s < n" for acc s
    using Suc that by blast
  have shorter: "parse_value n s = Inr (v, r) \<Longrightarrow> length r < length s" for s v r
    using parse_shorter [of n] by blast
  have "parse_value (Suc n) s \<noteq> Inl OutOfFuel" if n: "2 * length s < Suc n" for s
  proof (cases "skip_ws s")
    case Nil
    then show ?thesis by simp
  next
    case (Cons c t)
    then have t: "length t < length s" by (rule skip_ws_Cons)
    have "parse_elems n [] t \<noteq> Inl OutOfFuel"
      using t n by (intro elems) simp
    moreover have "parse_members n [] t \<noteq> Inl OutOfFuel"
      using t n by (intro members) simp
    ultimately show ?thesis
      using Cons by (auto split: sum.splits list.splits dest: parse_chars_error)
  qed
  moreover have "parse_elems (Suc n) acc s \<noteq> Inl OutOfFuel" if n: "2 * length s + 1 < Suc n"
    for acc s
  proof (cases "parse_value n s")
    case (Inl e)
    with n vals [of s] show ?thesis by auto
  next
    case (Inr p)
    then obtain x t where x: "parse_value n s = Inr (x, t)" by (cases p) auto
    then have t: "length t < length s" by (rule shorter)
    show ?thesis
    proof (cases "skip_ws t")
      case Nil
      with x show ?thesis by simp
    next
      case (Cons c t')
      then have "length t' < length t" by (rule skip_ws_Cons)
      with t n have "parse_elems n (acc @ [x]) t' \<noteq> Inl OutOfFuel"
        by (intro elems) simp
      with x Cons show ?thesis by simp
    qed
  qed
  moreover have "parse_members (Suc n) acc s \<noteq> Inl OutOfFuel" if n: "2 * length s < Suc n"
    for acc s
  proof (cases "skip_ws s")
    case Nil
    then show ?thesis by simp
  next
    case (Cons c t)
    then have t: "length t < length s" by (rule skip_ws_Cons)
    show ?thesis
    proof (cases "c = 0x22")
      case False
      with Cons show ?thesis by simp
    next
      case c: True
      show ?thesis
      proof (cases "parse_chars t")
        case (Inl e)
        with Cons c show ?thesis by (auto dest: parse_chars_error)
      next
        case (Inr p)
        then obtain k t1 where k: "parse_chars t = Inr (k, t1)" by (cases p) auto
        then have t1: "length t1 < length t" by (rule parse_chars_shorter)
        show ?thesis
        proof (cases "skip_ws t1")
          case Nil
          with Cons c k show ?thesis by simp
        next
          case colon: (Cons c1 t2)
          then have t2: "length t2 < length t1" by (rule skip_ws_Cons)
          show ?thesis
          proof (cases "c1 = 0x3A")
            case False
            with Cons c k colon show ?thesis by simp
          next
            case c1: True
            show ?thesis
            proof (cases "parse_value n t2")
              case (Inl e)
              moreover have "parse_value n t2 \<noteq> Inl OutOfFuel"
                using t t1 t2 n by (intro vals) simp
              ultimately show ?thesis
                using Cons c k colon c1 by auto
            next
              case (Inr q)
              then obtain x t3 where x: "parse_value n t2 = Inr (x, t3)" by (cases q) auto
              then have t3: "length t3 < length t2" by (rule shorter)
              show ?thesis
              proof (cases "skip_ws t3")
                case Nil
                with Cons c k colon c1 x show ?thesis by simp
              next
                case sep: (Cons c3 t4)
                then have "length t4 < length t3" by (rule skip_ws_Cons)
                with t t1 t2 t3 n have "parse_members n (obj_set k x acc) t4 \<noteq> Inl OutOfFuel"
                  by (intro members) simp
                with Cons c k colon c1 x sep show ?thesis by simp
              qed
            qed
          qed
        qed
      qed
    qed
  qed
  ultimately show ?case by blast
qed

lemma JSON_parse_fuel: "JSON_parse s \<noteq> Inl OutOfFuel"
proof -
  have "parse_value (Suc (2 * length s)) s \<noteq> Inl OutOfFuel"
    using fuel_suffices [of "Suc (2 * length s)"] by simp
  then show ?thesis
    by (auto simp: JSON_parse_def simp del: parse_value.simps split: sum.splits)
qed

section \<open>Reading a property after assignments\<close>

lemma map_of_replace_other:
  "k' \<noteq> k \<Longrightarrow> map_of (map (\<lambda>p. if fst p = k then (k, v) else p) ps) k' = map_of ps k'"
  by (induction ps) auto

lemma map_of_replace_same:
  "k \<in> set (map fst ps) \<Longrightarrow> map_of (map (\<lambda>p. if fst p = k then (k, v) else p) ps) k = Some v"
  by (induction ps) auto


lemma map_of_insert_middle:
  "k \<notin> set (map fst ps) \<Longrightarrow>
   map_of (takeWhile P ps @ [(k, v)] @ dropWhile P ps) k' =
     (if k' = k then Some v else map_of ps k')"
proof (induction ps)
  case Nil
  show ?case by simp
next
  case (Cons p ps)
  then show ?case by (cases p) auto
qed

lemma obj_get_obj_set:
  "obj_get (obj_set k v ps) k' = (if k' = k then Some v else obj_get ps k')"
proof (cases "k \<in> set (map fst ps)")
  case True
  then show ?thesis
    by (simp add: obj_get_def obj_set_def map_of_replace_other map_of_replace_same)
next
  case False
  then have none: "map_of ps k = None"
    by (simp add: map_of_eq_None_iff)
  show ?thesis
  proof (cases "array_index k")
    case None
    with False none show ?thesis
      by (auto simp: obj_get_def obj_set_def obj_insert_def map_add_def split: option.splits)
  next
    case (Some i)
    with False show ?thesis
      using map_of_insert_middle [OF False, of "\<lambda>p. index_below i (fst p)" v k']
      by (simp add: obj_get_def obj_set_def obj_insert_def)
  qed
qed





lemma keys_replace:
  "map fst (map (\<lambda>p. if fst p = k then (k, v) else p) ps) = map fst ps"
  by (induction ps) auto

lemma keys_obj_insert:
  "set (map fst (obj_insert k v ps)) = insert k (set (map fst ps))"
proof -
  have "set (takeWhile P ps) \<union> set (dropWhile P ps) = set ps" for P :: "(jsstring \<times> 'a) \<Rightarrow> bool"
    by (metis set_append takeWhile_dropWhile_id)
  then show ?thesis
    by (auto simp: obj_insert_def image_Un [symmetric] split: option.splits)
qed



section \<open>What the functions leave unchanged\<close>

lemma channel_send_webrtc: "channel_send c d w = (r, w') \<Longrightarrow> webrtc w' = webrtc w"
  by (auto simp: channel_send_def split: option.splits if_splits)

lemma webrtc_bind:
  assumes "webrtc (snd (m w)) = webrtc w" and "\<And>x w'. webrtc (snd (f x w')) = webrtc w'"
  shows "webrtc (snd (bind m f w)) = webrtc w"
proof (cases "m w")
  case (Pair r w1)
  then show ?thesis
    using assms(1) assms(2) [of _ w1] by (cases r) (simp_all add: bind_def)
qed

lemma webrtc_ret: "webrtc (snd (ret x w)) = webrtc w"
  by (simp add: ret_def)

lemma webrtc_channel_send: "webrtc (snd (channel_send c d w)) = webrtc w"
  by (simp add: channel_send_def split: option.splits)

lemma webrtc_send: "webrtc (snd (send t p w)) = webrtc w"
  by (simp add: send_def webrtc_bind webrtc_ret webrtc_channel_send split: option.splits)

lemma webrtc_broadcast_loop: "webrtc (snd (broadcast_loop msg ex ps w)) = webrtc w"
proof (induction ps arbitrary: w)
  case Nil
  show ?case by simp
next
  case (Cons p ps)
  show ?case
    by (auto split: option.splits prod.splits sum.splits simp: Cons.IH dest: channel_send_webrtc)
qed

lemma webrtc_broadcastMessage: "webrtc (snd (broadcastMessage msg ex w)) = webrtc w"
  by (simp add: broadcastMessage_def webrtc_broadcast_loop)

lemma webrtc_call_ui: "webrtc (call_ui c w) = webrtc w"
  by (simp add: call_ui_def)

lemma webrtc_renderMessage: "webrtc (snd (renderMessage u tx isMe w)) = webrtc w"
  by (simp add: renderMessage_def webrtc_call_ui split: sum.splits)

lemma webrtc_app_onMessage: "webrtc (snd (app_onMessage msg w)) = webrtc w"
  by (simp add: app_onMessage_def webrtc_call_ui webrtc_renderMessage split: sum.splits)

lemma webrtc_app_onPeerJoin: "webrtc (snd (app_onPeerJoin now u w)) = webrtc w"
  by (simp add: app_onPeerJoin_def Let_def webrtc_call_ui webrtc_broadcastMessage
      split: option.splits sum.splits)

lemma webrtc_app_onPeerLeave: "webrtc (snd (app_onPeerLeave u w)) = webrtc w"
  by (simp add: app_onPeerLeave_def Let_def webrtc_call_ui split: option.splits sum.splits)

lemma webrtc_app_onIdentityRequest: "webrtc (snd (app_onIdentityRequest w)) = webrtc w"
  by (simp add: app_onIdentityRequest_def webrtc_bind webrtc_ret webrtc_send)

lemma webrtc_app_onConnected: "webrtc (snd (app_onConnected w)) = webrtc w"
  by (simp add: app_onConnected_def Let_def webrtc_bind webrtc_ret webrtc_send webrtc_call_ui)

lemma webrtc_app_onDisconnected: "webrtc (snd (app_onDisconnected w)) = webrtc w"
  by (simp add: app_onDisconnected_def Let_def webrtc_call_ui)

lemma webrtc_reload: "webrtc (reload_page w) = None"
  by (simp add: reload_page_def)

lemma webrtc_handleMessage:
  "webrtc (snd (handleMessage now msg w)) = webrtc w
   \<or> webrtc (snd (handleMessage now msg w)) = None"
proof (cases "get_prop (Some msg) (js ''type'')")
  case (Inl e)
  then show ?thesis by (simp add: handleMessage_def)
next
  case (Inr t)
  show ?thesis
  proof (cases "webrtc w")
    case None
    with Inr show ?thesis by (simp add: handleMessage_def)
  next
    case (Some m)
    have join: "webrtc (snd (case get_prop (Some msg) k of
                               Inl e \<Rightarrow> (Inl e, w)
                             | Inr u \<Rightarrow> app_onPeerJoin now u w)) = webrtc w" for k
      by (simp add: webrtc_app_onPeerJoin split: sum.splits)
    have leave: "webrtc (snd (case get_prop (Some msg) k of
                                Inl e \<Rightarrow> (Inl e, w)
                              | Inr u \<Rightarrow> app_onPeerLeave u w)) = webrtc w" for k
      by (simp add: webrtc_app_onPeerLeave split: sum.splits)
    from Inr Some show ?thesis
      unfolding handleMessage_def
      by (simp add: join leave webrtc_app_onMessage webrtc_app_onIdentityRequest webrtc_reload
          del: get_prop.simps)
  qed
qed

lemma webrtc_channel_onopen: "webrtc (snd (channel_onopen c w)) = webrtc w"
  by (simp add: channel_onopen_def webrtc_bind webrtc_ret webrtc_app_onConnected
      webrtc_channel_send split: option.splits)

lemma webrtc_channel_onclose: "webrtc (snd (channel_onclose w)) = webrtc w"
  by (simp add: channel_onclose_def webrtc_app_onDisconnected split: option.splits)

lemma webrtc_handleAnswer: "webrtc (snd (handleAnswer br lz a w)) = webrtc w"
  by (simp add: handleAnswer_def split: option.splits sum.splits)

lemma webrtc_webrtc_emit: "webrtc (webrtc_emit body now e d w) = webrtc w"
  by (simp add: webrtc_emit_def split: option.splits)

lemma webrtc_onicecandidate: "webrtc (snd (onicecandidate body now cand w)) = webrtc w"
  by (simp add: onicecandidate_def webrtc_webrtc_emit split: option.splits)

section \<open>Closing a link\<close>

lemma cleanup_cleanup: "cleanup (cleanup w) = cleanup w"
  by (cases "webrtc w") (simp_all add: cleanup_def Let_def)

lemma webrtc_cleanup:
  "webrtc (cleanup w) =
     map_option (\<lambda>m. m\<lparr>channel := None, localPC := None, link_isHost := False\<rparr>) (webrtc w)"
  by (cases "webrtc w") (simp_all add: cleanup_def Let_def)

lemma destroy_destroy: "destroy (destroy w) = destroy w"
  by (cases "webrtc w")
    (simp_all add: destroy_def Let_def cleanup_cleanup webrtc_cleanup cleanup_def)

lemma webrtc_destroy:
  "webrtc (destroy w) =
     map_option (\<lambda>m. m\<lparr>channel := None, localPC := None, link_isHost := False,
                       onMessage := False, onPeerJoin := False, onPeerLeave := False,
                       onConnected := False, onDisconnected := False,
                       onIdentityRequest := False\<rparr>) (webrtc w)"
  by (cases "webrtc w") (simp_all add: destroy_def Let_def webrtc_cleanup)

lemma closed_of_webrtc: "webrtc w' = webrtc w \<Longrightarrow> link_closed w \<Longrightarrow> link_closed w'"
  by (simp add: link_closed_def)

lemma webrtc_host_offering:
  "webrtc host_offering =
     Some \<lparr>localPC = Some 0, hostPC = None, channel = Some 1, link_isHost = True,
           onMessage = True, onPeerJoin = True, onPeerLeave = True,
           onConnected = True, onDisconnected = True, onIdentityRequest = True\<rparr>"
  by (simp add: host_offering_def createOffer_def ensure_webrtc_def setupWebRTCHandlers_def
      new_WebRTCManager_def initHost_def call_ui_def page0_def Let_def)

lemma cleanup_frame:
  "state (cleanup w) = state w" "store (cleanup w) = store w" "next_ref (cleanup w) = next_ref w"
  by (simp_all add: cleanup_def Let_def channel_close_def pc_close_def split: option.splits)

lemma channels_destroy: "channels (destroy w) = channels (cleanup w)"
  by (simp add: destroy_def Let_def split: option.splits)

lemma connections_destroy: "connections (destroy w) = connections (cleanup w)"
  by (simp add: destroy_def Let_def split: option.splits)

lemma cleanup_closes_channel:
  assumes "webrtc w = Some m" and "channel m = Some c" and "channels w c = Some ch"
  shows "\<exists>ch'. channels (cleanup w) c = Some ch'
           \<and> (readyState ch' = Closing \<or> readyState ch' = Closed)
           \<and> owner ch' = owner ch \<and> sent ch' = sent ch"
  using assms
  by (auto simp: cleanup_def Let_def channel_close_def pc_close_def split: option.splits)

lemma cleanup_closes_connection:
  assumes "webrtc w = Some m" and "localPC m = Some pc" and "connections w pc = Some p"
  shows "\<exists>p'. connections (cleanup w) pc = Some p' \<and> pc_closed p'"
  using assms
  by (auto simp: cleanup_def Let_def channel_close_def pc_close_def split: option.splits)

lemma webrtc_channel_onmessage:
  "webrtc (snd (channel_onmessage now d w)) = webrtc w
   \<or> webrtc (snd (channel_onmessage now d w)) = None"
  using webrtc_handleMessage by (simp add: channel_onmessage_def split: sum.splits)

lemma reopened:
  assumes "link_closed v"
  shows "\<not> link_closed (snd (createOffer br lz v))"
    and "\<not> link_closed (snd (createAnswer br lz d v))"
    and "\<not> link_closed (snd (ondatachannel br body now pc v))"
  using assms
  by (auto simp: link_closed_def createOffer_def createAnswer_def ondatachannel_def Let_def
      webrtc_webrtc_emit split: option.splits sum.splits)

lemma closed_new_manager: "webrtc u = None \<Longrightarrow> link_closed (ensure_webrtc u)"
  by (simp add: link_closed_def ensure_webrtc_def setupWebRTCHandlers_def new_WebRTCManager_def)

lemma host_offering_link:
  "channels host_offering 1 =
     Some \<lparr>readyState = Connecting, owner = 0, maxMessageSize = 262144, sent = []\<rparr>"
  "connections host_offering 0 =
     Some \<lparr>pc_closed = False, localDescription = new_description browser0,
           remoteDescription = JNull\<rparr>"
  by (simp_all add: host_offering_def createOffer_def ensure_webrtc_def setupWebRTCHandlers_def
      new_WebRTCManager_def initHost_def call_ui_def page0_def browser0_def Let_def)

text \<open>
  C8. Calling \<^verbatim>\<open>cleanup\<close> (or \<^verbatim>\<open>destroy\<close>) again gives the state that one call
  gives, and neither touches the application state. After either, on a page that has
  a manager, the manager holds no channel and no connection, the channel it held is
  closing or closed (with what had been sent on it unchanged) and the connection it
  held is closed; \<^verbatim>\<open>destroy\<close> leaves the channels and connections as
  \<^verbatim>\<open>cleanup\<close> does. From a state in which the manager holds neither,
  \<^verbatim>\<open>send\<close>, \<^verbatim>\<open>handleAnswer\<close>, the handler of the end of candidate gathering,
  the channel handlers, \<^verbatim>\<open>handleMessage\<close>, \<^verbatim>\<open>cleanup\<close> and \<^verbatim>\<open>destroy\<close>
  lead only to such a state again (or, for a \<open>kick\<close> or \<open>close\<close> message, to a
  reloaded page without a manager), whereas \<^verbatim>\<open>createOffer\<close>,
  \<^verbatim>\<open>createAnswer\<close> and the handler of a \<open>datachannel\<close> event always leave it:
  they give the manager a new connection or channel. The manager keeps no record of
  having been closed: a manager that was just created is in the same condition.
\<close>

theorem cleanup_idempotent_closed_stays:
  "cleanup (cleanup w) = cleanup w \<and> destroy (destroy w) = destroy w
   \<and> state (cleanup w) = state w \<and> state (destroy w) = state w
   \<and> channels (destroy w) = channels (cleanup w)
   \<and> connections (destroy w) = connections (cleanup w)
   \<and> (webrtc w = Some m \<longrightarrow>
        link_closed (cleanup w) \<and> link_closed (destroy w)
      \<and> (channel m = Some c \<and> channels w c = Some ch \<longrightarrow>
           (\<exists>ch'. channels (cleanup w) c = Some ch'
                 \<and> (readyState ch' = Closing \<or> readyState ch' = Closed)
                 \<and> owner ch' = owner ch \<and> sent ch' = sent ch))
      \<and> (localPC m = Some pc \<and> connections w pc = Some p \<longrightarrow>
           (\<exists>p'. connections (cleanup w) pc = Some p' \<and> pc_closed p')))
   \<and> (link_closed v \<longrightarrow>
        link_closed (snd (send type payload v))
      \<and> link_closed (snd (handleAnswer br lz answerData v))
      \<and> link_closed (snd (onicecandidate body now candidate v))
      \<and> link_closed (snd (channel_onopen c' v))
      \<and> link_closed (snd (channel_onclose v))
      \<and> (link_closed (snd (handleMessage now msg v))
          \<or> webrtc (snd (handleMessage now msg v)) = None)
      \<and> (link_closed (snd (channel_onmessage now data v))
          \<or> webrtc (snd (channel_onmessage now data v)) = None)
      \<and> link_closed (cleanup v) \<and> link_closed (destroy v)
      \<and> \<not> link_closed (snd (createOffer br lz v))
      \<and> \<not> link_closed (snd (createAnswer br lz offerData v))
      \<and> \<not> link_closed (snd (ondatachannel br body now pc' v)))
   \<and> (webrtc u = None \<longrightarrow> link_closed (ensure_webrtc u))"
proof -
  have after: "link_closed (cleanup x)" "link_closed (destroy x)" if "webrtc x \<noteq> None" for x
    using that by (auto simp: link_closed_def webrtc_cleanup webrtc_destroy)
  have manager: "link_closed x \<Longrightarrow> webrtc x \<noteq> None" for x
    by (auto simp: link_closed_def split: option.splits)
  have same: "state (destroy w) = state w"
    by (simp add: destroy_def Let_def cleanup_frame split: option.splits)
  have idem: "cleanup (cleanup w) = cleanup w \<and> destroy (destroy w) = destroy w
      \<and> state (cleanup w) = state w \<and> state (destroy w) = state w
      \<and> channels (destroy w) = channels (cleanup w)
      \<and> connections (destroy w) = connections (cleanup w)"
    by (simp add: cleanup_cleanup destroy_destroy cleanup_frame same channels_destroy
        connections_destroy)
  have released: "webrtc w = Some m \<longrightarrow>
        link_closed (cleanup w) \<and> link_closed (destroy w)
      \<and> (channel m = Some c \<and> channels w c = Some ch \<longrightarrow>
           (\<exists>ch'. channels (cleanup w) c = Some ch'
                 \<and> (readyState ch' = Closing \<or> readyState ch' = Closed)
                 \<and> owner ch' = owner ch \<and> sent ch' = sent ch))
      \<and> (localPC m = Some pc \<and> connections w pc = Some p \<longrightarrow>
           (\<exists>p'. connections (cleanup w) pc = Some p' \<and> pc_closed p'))"
    using after [of w] cleanup_closes_channel [of w m c ch]
      cleanup_closes_connection [of w m pc p]
    by simp
  have message: "link_closed (snd (handleMessage now msg v))
      \<or> webrtc (snd (handleMessage now msg v)) = None" if "link_closed v"
    using webrtc_handleMessage [of now msg v] that by (auto intro: closed_of_webrtc)
  have frame: "link_closed (snd (channel_onmessage now data v))
      \<or> webrtc (snd (channel_onmessage now data v)) = None" if "link_closed v"
    using webrtc_channel_onmessage [of now data v] that by (auto intro: closed_of_webrtc)
  have stays: "link_closed v \<longrightarrow>
        link_closed (snd (send type payload v))
      \<and> link_closed (snd (handleAnswer br lz answerData v))
      \<and> link_closed (snd (onicecandidate body now candidate v))
      \<and> link_closed (snd (channel_onopen c' v))
      \<and> link_closed (snd (channel_onclose v))
      \<and> (link_closed (snd (handleMessage now msg v))
          \<or> webrtc (snd (handleMessage now msg v)) = None)
      \<and> (link_closed (snd (channel_onmessage now data v))
          \<or> webrtc (snd (channel_onmessage now data v)) = None)
      \<and> link_closed (cleanup v) \<and> link_closed (destroy v)
      \<and> \<not> link_closed (snd (createOffer br lz v))
      \<and> \<not> link_closed (snd (createAnswer br lz offerData v))
      \<and> \<not> link_closed (snd (ondatachannel br body now pc' v))"
    using after [of v] manager [of v] message frame reopened [of v]
    by (auto intro: closed_of_webrtc [OF webrtc_send] closed_of_webrtc [OF webrtc_handleAnswer]
        closed_of_webrtc [OF webrtc_onicecandidate] closed_of_webrtc [OF webrtc_channel_onopen]
        closed_of_webrtc [OF webrtc_channel_onclose])
  show ?thesis
    using idem released stays closed_new_manager [of u] by blast
qed

theorem cleanup_idempotent_closed_stays_witness:
  "webrtc host_offering = Some (installed (Some 0) (Some 1) True)
   \<and> channels host_offering 1 =
       Some \<lparr>readyState = Connecting, owner = 0, maxMessageSize = 262144, sent = []\<rparr>
   \<and> map_option pc_closed (connections host_offering 0) = Some False
   \<and> (\<exists>ch'. channels (cleanup host_offering) 1 = Some ch'
         \<and> (readyState ch' = Closing \<or> readyState ch' = Closed))
   \<and> (\<exists>p'. connections (cleanup host_offering) 0 = Some p' \<and> pc_closed p')
   \<and> link_closed (cleanup host_offering)
   \<and> cleanup (cleanup host_offering) = cleanup host_offering
   \<and> destroy (destroy host_offering) = destroy host_offering
   \<and> link_closed (destroy host_offering)
   \<and> link_closed (snd (send (js ''chat'') [] (cleanup host_offering)))
   \<and> link_closed (snd (handleAnswer browser0 None [] (cleanup host_offering)))
   \<and> link_closed (snd (onicecandidate (\<lambda>cb. []) 0 None (cleanup host_offering)))
   \<and> link_closed (snd (channel_onopen 1 (cleanup host_offering)))
   \<and> link_closed (snd (channel_onclose (cleanup host_offering)))
   \<and> webrtc page0 = None \<and> link_closed (ensure_webrtc page0)"
proof -
  have manager: "webrtc host_offering = Some (installed (Some 0) (Some 1) True)"
    by (simp add: webrtc_host_offering installed_def)
  have closed: "link_closed (cleanup host_offering)"
    by (simp add: link_closed_def webrtc_cleanup webrtc_host_offering)
  have fresh: "webrtc page0 = None"
    by (simp add: page0_def)
  show ?thesis
    using manager closed fresh host_offering_link
      cleanup_idempotent_closed_stays [where w = host_offering
        and m = "installed (Some 0) (Some 1) True" and c = 1
        and ch = "\<lparr>readyState = Connecting, owner = 0, maxMessageSize = 262144, sent = []\<rparr>"
        and pc = 0
        and p = "\<lparr>pc_closed = False, localDescription = new_description browser0,
                 remoteDescription = JNull\<rparr>"
        and v = "cleanup host_offering" and type = "js ''chat''" and payload = "[]"
        and br = browser0 and lz = None and answerData = "[]" and body = "\<lambda>cb. []"
        and now = 0 and candidate = None and c' = 1 and msg = JNull and data = "[]"
        and offerData = "[]" and pc' = 0 and u = page0]
    by (auto simp: installed_def)
qed

text \<open>C8, as stated, fails: the link that \<^verbatim>\<open>cleanup\<close> has closed is opened again
  by \<^verbatim>\<open>createOffer\<close>, which is what \<^verbatim>\<open>showInviteModal\<close> calls on the one manager
  of the page for every invitation, and by \<^verbatim>\<open>createAnswer\<close>, which
  \<^verbatim>\<open>handleScan\<close> calls on it.\<close>

theorem closed_not_terminal:
  "link_closed (cleanup host_offering)
   \<and> \<not> link_closed (snd (createOffer browser0 None (cleanup host_offering)))
   \<and> \<not> link_closed (snd (createAnswer browser0 None (compressDescription None offer0)
                               (cleanup host_offering)))"
  by (simp add: link_closed_def webrtc_cleanup webrtc_host_offering createOffer_def
      createAnswer_def Let_def split: sum.splits option.splits)

section \<open>The descriptor codec\<close>

text \<open>
  C2. For every JSON value \<open>d\<close> that is well formed (the keys of each object
  distinct and in enumeration order), and so for every offer or answer
  \<^verbatim>\<open>{ type, sdp }\<close>, \<^verbatim>\<open>decompressDescription(compressDescription(d))\<close> is
  \<open>d\<close>, with or without the library \<^verbatim>\<open>LZString\<close> on the page, provided the
  library gives back what it was given. The statement does not ask \<open>d\<close> to be a
  descriptor: decoding checks nothing but the JSON syntax.
\<close>

theorem codec_roundtrip:
  assumes "wf_json d" and "lossless lz"
  shows "decompressDescription lz (compressDescription lz d) = Inr d"
proof (cases lz)
  case None
  with assms(1) show ?thesis
    by (simp add: decompressDescription_def compressDescription_def JSON_roundtrip)
next
  case (Some L)
  with assms(2) have "decompressFromBase64 L (compressToBase64 L (JSON_stringify d))
      = Some (JSON_stringify d)"
    by (simp add: lossless_def)
  with Some assms(1) show ?thesis
    by (simp add: decompressDescription_def compressDescription_def JSON_parse_arg_def
        JSON_roundtrip)
qed

lemma wf_offer0: "wf_json offer0"
  by (simp add: offer0_def js_def array_index_def is_digit_def)

theorem codec_roundtrip_witness:
  "wf_json offer0 \<and> lossless (Some reversing)
   \<and> decompressDescription (Some reversing) (compressDescription (Some reversing) offer0)
       = Inr offer0"
proof -
  have l: "lossless (Some reversing)"
    by (simp add: lossless_def reversing_def)
  show ?thesis
    using wf_offer0 l codec_roundtrip [OF wf_offer0 l] by simp
qed

section \<open>\<^verbatim>\<open>send\<close>\<close>


lemma send_too_large:
  assumes "webrtc w = Some m" "channel m = Some c" "channels w c = Some ch"
    and "readyState ch = Open"
    and "maxMessageSize ch < utf8_length (JSON_stringify (envelope type payload))"
  shows "send type payload w = (Inl TypeError, w)"
  using assms by (simp add: send_def channel_send_def bind_def ret_def)

lemma send_not_open:
  assumes "webrtc w = Some m"
    and "channel m = None \<or> (\<exists>c ch. channel m = Some c \<and> channels w c = Some ch \<and> readyState ch \<noteq> Open)"
  shows "send type payload w = (Inr False, w)"
  using assms by (auto simp: send_def)

lemma stringify_hello:
  "utf8_length (JSON_stringify (envelope (js ''chat'') [(js ''text'', JStr (js ''hello, all''))])) = 35"
  by (simp add: envelope_def obj_spread_def obj_set_def obj_insert_def array_index_def is_digit_def
      js_def QuoteJSONString_def escape_unit_def is_leading_surrogate_def is_trailing_surrogate_def
      unit_bytes_def)

lemma guest_bob_fields:
  "webrtc (guest_bob n) = Some (installed (Some 0) (Some 1) False)"
  "channels (guest_bob n) 1 = Some (open_channel 0 n)"
  "state (guest_bob n) = \<lparr>user = user_bob, isHost = False, isConnected = True, peers = [],
               currentScreen = js ''chat'', isReady = True\<rparr>"
  "ui (guest_bob n) = []"
  by (simp_all add: guest_bob_def)

text \<open>
  C5. With a manager on the page, \<^verbatim>\<open>send\<close> returns \<^verbatim>\<open>true\<close> only when the
  manager's channel is open; it returns \<^verbatim>\<open>false\<close>, changing nothing, when the
  manager has no channel or the channel is not open; and on an open channel it hands the
  frame to the channel. When the channel's own \<^verbatim>\<open>send\<close> raises (the frame is larger
  than the transport takes), the error is not caught: \<^verbatim>\<open>send\<close> raises it too.
\<close>

theorem send_true_false_or_raises:
  assumes "webrtc w = Some m"
  shows "(fst (send type payload w) = Inr True \<longrightarrow>
            (\<exists>c ch. channel m = Some c \<and> channels w c = Some ch \<and> readyState ch = Open))
       \<and> (channel m = None \<longrightarrow> send type payload w = (Inr False, w))
       \<and> (\<forall>c ch. channel m = Some c \<and> channels w c = Some ch \<longrightarrow>
            send type payload w =
              (if readyState ch \<noteq> Open then (Inr False, w)
               else if maxMessageSize ch < utf8_length (JSON_stringify (envelope type payload))
                 then (Inl TypeError, w)
               else (Inr True, w\<lparr>channels := (channels w)
                      (c \<mapsto> ch\<lparr>sent := sent ch @ [JSON_stringify (envelope type payload)]\<rparr>)\<rparr>)))"
proof (intro conjI impI allI)
  assume "fst (send type payload w) = Inr True"
  with assms show "\<exists>c ch. channel m = Some c \<and> channels w c = Some ch \<and> readyState ch = Open"
    by (auto simp: send_def split: option.splits if_splits)
next
  assume "channel m = None"
  with assms show "send type payload w = (Inr False, w)"
    by (simp add: send_not_open)
next
  fix c ch
  assume c: "channel m = Some c \<and> channels w c = Some ch"
  show "send type payload w =
      (if readyState ch \<noteq> Open then (Inr False, w)
       else if maxMessageSize ch < utf8_length (JSON_stringify (envelope type payload))
         then (Inl TypeError, w)
       else (Inr True, w\<lparr>channels := (channels w)
              (c \<mapsto> ch\<lparr>sent := sent ch @ [JSON_stringify (envelope type payload)]\<rparr>)\<rparr>))"
    using assms c by (simp add: send_def channel_send_def bind_def ret_def)
qed

theorem send_true_false_or_raises_witness:
  "webrtc (guest_bob 262144) = Some (installed (Some 0) (Some 1) False)
   \<and> send (js ''chat'') [(js ''text'', JStr (js ''hello, all''))] (guest_bob 262144)
       = (Inr True, (guest_bob 262144)\<lparr>channels := (channels (guest_bob 262144))
            (1 \<mapsto> (open_channel 0 262144)\<lparr>sent :=
               [JSON_stringify (envelope (js ''chat'') [(js ''text'', JStr (js ''hello, all''))])]\<rparr>)\<rparr>)"
  using send_true_false_or_raises [of "guest_bob 262144" "installed (Some 0) (Some 1) False"
      "js ''chat''" "[(js ''text'', JStr (js ''hello, all''))]"]
  by (simp add: guest_bob_fields installed_def open_channel_def stringify_hello
      del: JSON_stringify.simps One_nat_def)

text \<open>C5, as stated, fails: on an open channel whose transport takes at most 16 bytes,
  sending a 35-byte frame raises a TypeError instead of returning \<^verbatim>\<open>false\<close>.\<close>

theorem send_raises_on_transport_failure:
  "send (js ''chat'') [(js ''text'', JStr (js ''hello, all''))] (guest_bob 16)
     = (Inl TypeError, guest_bob 16)"
  by (rule send_too_large [where m = "installed (Some 0) (Some 1) False" and c = 1
        and ch = "open_channel 0 16"])
    (simp_all add: guest_bob_fields installed_def open_channel_def stringify_hello
      del: JSON_stringify.simps One_nat_def)





section \<open>Receiving a message\<close>

lemma channel_onmessage_stringify:
  "wf_json msg \<Longrightarrow> channel_onmessage now (JSON_stringify msg) w = handleMessage now msg w"
  by (simp add: channel_onmessage_def JSON_roundtrip del: JSON_stringify.simps)

lemma handleMessage_kick:
  assumes "webrtc w = Some m" and "obj_get ps (js ''type'') = Some (JStr (js ''kick''))"
  shows "handleMessage now (JObj ps) w =
    (Inr (), reload_page (call_ui (Alert (js ''You were removed from the group'')) (cleanup w)))"
  using assms by (simp add: handleMessage_def js_def)

lemma handleMessage_chat:
  assumes "webrtc w = Some m" and "obj_get ps (js ''type'') = Some (JStr (js ''chat''))"
  shows "handleMessage now (JObj ps) w =
    (if onMessage m
     then renderMessage (obj_get ps (js ''user'')) (obj_get ps (js ''text'')) False w
     else (Inr (), w))"
  using assms by (simp add: handleMessage_def app_onMessage_def js_def)

lemma renderMessage_user:
  "renderMessage u tx False w =
     (if u = None \<or> u = Some JNull then (Inl TypeError, w)
      else (Inr (), call_ui (RenderMessage u tx False) w))"
proof (cases u)
  case None
  then show ?thesis by (simp add: renderMessage_def)
next
  case (Some v)
  then show ?thesis by (cases v) (simp_all add: renderMessage_def)
qed

lemma handleMessage_system:
  assumes "webrtc w = Some m" and "obj_get ps (js ''type'') = Some (JStr (js ''system''))"
  shows "handleMessage now (JObj ps) w =
    (Inr (), if onMessage m then call_ui (AddSystemMessage (obj_get ps (js ''text''))) w else w)"
  using assms by (simp add: handleMessage_def app_onMessage_def js_def)

lemma handleMessage_identity:
  assumes "webrtc w = Some m" and "obj_get ps (js ''type'') = Some (JStr (js ''identity''))"
  shows "handleMessage now (JObj ps) w =
    (if onPeerJoin m then app_onPeerJoin now (obj_get ps (js ''user'')) w else (Inr (), w))"
  using assms by (simp add: handleMessage_def js_def)

lemma ui_cleanup: "ui (cleanup w) = ui w"
  by (simp add: cleanup_def Let_def channel_close_def pc_close_def split: option.splits)

lemma reload_page_fields:
  "state (reload_page w) = initial_state"
  "webrtc (reload_page w) = None"
  "ui (reload_page w) = ui w @ [Reload]"
  "channels (reload_page w) c = Some ch \<Longrightarrow> readyState ch = Closed"
  "connections (reload_page w) r = Some p \<Longrightarrow> pc_closed p"
  by (auto simp: reload_page_def split: option.splits)

lemma wf_kick: "wf_json (JObj [(js ''type'', JStr (js ''kick''))])"
  by simp

lemma host_abc_fields:
  "webrtc host_abc = Some (installed (Some 4) (Some 5) True)"
  "ui host_abc = []"
  "isHost (state host_abc)"
  "length (peers (state host_abc)) = 3"
  by (simp_all add: host_abc_def)

text \<open>
  C6. A page with a manager, guest or host, that receives a frame whose \<open>type\<close>
  is \<open>kick\<close> ends its session: the handler returns normally, the manager's link is
  cleaned up, the alert is shown and the page is reloaded, which leaves the initial
  state (an empty peer registry, no manager) and every channel and connection closed.
\<close>

theorem kick_ends_session_in_either_role:
  assumes "webrtc w = Some m" and "wf_json (JObj ps)"
    and "obj_get ps (js ''type'') = Some (JStr (js ''kick''))"
  shows "fst (channel_onmessage now (JSON_stringify (JObj ps)) w) = Inr ()
       \<and> state (snd (channel_onmessage now (JSON_stringify (JObj ps)) w)) = initial_state
       \<and> peers (state (snd (channel_onmessage now (JSON_stringify (JObj ps)) w))) = []
       \<and> webrtc (snd (channel_onmessage now (JSON_stringify (JObj ps)) w)) = None
       \<and> (\<forall>c ch. channels (snd (channel_onmessage now (JSON_stringify (JObj ps)) w)) c = Some ch
             \<longrightarrow> readyState ch = Closed)
       \<and> (\<forall>r p. connections (snd (channel_onmessage now (JSON_stringify (JObj ps)) w)) r = Some p
             \<longrightarrow> pc_closed p)
       \<and> ui (snd (channel_onmessage now (JSON_stringify (JObj ps)) w))
           = ui w @ [Alert (js ''You were removed from the group''), Reload]"
proof -
  have "channel_onmessage now (JSON_stringify (JObj ps)) w =
      (Inr (), reload_page (call_ui (Alert (js ''You were removed from the group'')) (cleanup w)))"
    using assms by (simp only: channel_onmessage_stringify handleMessage_kick)
  then show ?thesis
    by (auto simp: reload_page_fields call_ui_def ui_cleanup initial_state_def
        simp del: JSON_stringify.simps)
qed

theorem kick_ends_session_in_either_role_witness:
  "webrtc (guest_bob 262144) = Some (installed (Some 0) (Some 1) False)
   \<and> wf_json (JObj [(js ''type'', JStr (js ''kick''))])
   \<and> obj_get [(js ''type'', JStr (js ''kick''))] (js ''type'') = Some (JStr (js ''kick''))
   \<and> \<not> isHost (state (guest_bob 262144))
   \<and> fst (channel_onmessage 0 (JSON_stringify (JObj [(js ''type'', JStr (js ''kick''))]))
            (guest_bob 262144)) = Inr ()
   \<and> peers (state (snd (channel_onmessage 0 (JSON_stringify (JObj [(js ''type'', JStr (js ''kick''))]))
            (guest_bob 262144)))) = []
   \<and> webrtc (snd (channel_onmessage 0 (JSON_stringify (JObj [(js ''type'', JStr (js ''kick''))]))
            (guest_bob 262144))) = None
   \<and> ui (snd (channel_onmessage 0 (JSON_stringify (JObj [(js ''type'', JStr (js ''kick''))]))
            (guest_bob 262144)))
       = [Alert (js ''You were removed from the group''), Reload]"
proof -
  have t: "obj_get [(js ''type'', JStr (js ''kick''))] (js ''type'') = Some (JStr (js ''kick''))"
    by (simp add: obj_get_def)
  show ?thesis
    using kick_ends_session_in_either_role [OF guest_bob_fields(1) [of 262144] wf_kick t, where now = 0]
      wf_kick t
    by (simp add: guest_bob_fields initial_state_def del: JSON_stringify.simps wf_json.simps)
qed

text \<open>C6, as stated, fails for the host: a host with three peers that receives
  \<open>kick\<close> does not ignore it, its session is torn down in the same way.\<close>

theorem host_is_torn_down_by_kick:
  "isHost (state host_abc) \<and> length (peers (state host_abc)) = 3
   \<and> fst (channel_onmessage 0 (JSON_stringify (JObj [(js ''type'', JStr (js ''kick''))])) host_abc)
       = Inr ()
   \<and> peers (state (snd (channel_onmessage 0 (JSON_stringify (JObj [(js ''type'', JStr (js ''kick''))]))
            host_abc))) = []
   \<and> webrtc (snd (channel_onmessage 0 (JSON_stringify (JObj [(js ''type'', JStr (js ''kick''))]))
            host_abc)) = None
   \<and> ui (snd (channel_onmessage 0 (JSON_stringify (JObj [(js ''type'', JStr (js ''kick''))]))
            host_abc))
       = [Alert (js ''You were removed from the group''), Reload]"
proof -
  have t: "obj_get [(js ''type'', JStr (js ''kick''))] (js ''type'') = Some (JStr (js ''kick''))"
    by (simp add: obj_get_def)
  have "channel_onmessage 0 (JSON_stringify (JObj [(js ''type'', JStr (js ''kick''))])) host_abc =
      (Inr (), reload_page (call_ui (Alert (js ''You were removed from the group''))
                 (cleanup host_abc)))"
    using host_abc_fields(1) wf_kick t
    by (simp only: channel_onmessage_stringify handleMessage_kick)
  then show ?thesis
    by (simp add: reload_page_fields call_ui_def ui_cleanup initial_state_def host_abc_fields
        del: JSON_stringify.simps)
qed

section \<open>The end of candidate gathering after the link was closed\<close>

text \<open>
  C9. The handler of the end of candidate gathering reads
  \<^verbatim>\<open>this.localPC.localDescription\<close> without looking at the state of the link:
  called after \<^verbatim>\<open>cleanup\<close> has set \<^verbatim>\<open>this.localPC\<close> to \<^verbatim>\<open>null\<close>, it raises
  a TypeError (and changes nothing).
\<close>

theorem late_gathering_callback_raises:
  assumes "link_closed w"
  shows "onicecandidate body now None w = (Inl TypeError, w)"
  using assms by (auto simp: link_closed_def onicecandidate_def split: option.splits)

theorem late_gathering_callback_raises_witness:
  "link_closed (cleanup host_offering)
   \<and> onicecandidate (\<lambda>cb. []) 0 None (cleanup host_offering)
       = (Inl TypeError, cleanup host_offering)"
proof -
  have closed: "link_closed (cleanup host_offering)"
    by (simp add: link_closed_def webrtc_cleanup webrtc_host_offering)
  then show ?thesis
    using late_gathering_callback_raises [OF closed, of "\<lambda>cb. []" 0] by simp
qed

section \<open>Chat and system messages at the host\<close>

lemma wf_users: "wf_json user_ann" "wf_json user_hal"
  by (simp_all add: user_ann_def user_hal_def js_def array_index_def is_digit_def)

lemma wf_chat_from_ann: "wf_json (JObj chat_from_ann)"
  using wf_users(1) by (simp add: chat_from_ann_def js_def array_index_def is_digit_def)

lemma wf_identity: "wf_json (JObj identity_of_ann)" "wf_json (JObj identity_of_hal)"
  using wf_users by (simp_all add: identity_of_ann_def identity_of_hal_def js_def array_index_def
      is_digit_def)

lemma example_fields:
  "obj_get chat_from_ann (js ''type'') = Some (JStr (js ''chat''))"
  "obj_get chat_from_ann (js ''user'') = Some user_ann"
  "obj_get chat_from_ann (js ''text'') = Some (JStr (js ''hi''))"
  "obj_get identity_of_ann (js ''type'') = Some (JStr (js ''identity''))"
  "obj_get identity_of_ann (js ''user'') = Some user_ann"
  "obj_get identity_of_hal (js ''type'') = Some (JStr (js ''identity''))"
  "obj_get identity_of_hal (js ''user'') = Some user_hal"
  by (simp_all add: chat_from_ann_def identity_of_ann_def identity_of_hal_def obj_get_def js_def)

lemma host_abc_channels:
  "channels host_abc 1 = Some (open_channel 0 262144)"
  "channels host_abc 3 = Some (open_channel 2 262144)"
  "channels host_abc 5 = Some (open_channel 4 262144)"
  by (simp_all add: host_abc_def)

text \<open>
  C1. A chat or system frame that arrives on a channel is shown locally (when the
  handler is installed) and nothing else happens: the application state is unchanged
  and no channel is sent anything, so the frame does not go back to its author, and
  it is not forwarded to any other peer either. The handler is not told which channel
  the frame came from. The handler returns normally, except for a chat frame whose
  \<open>user\<close> is missing or \<^verbatim>\<open>null\<close>: rendering it raises a TypeError, and then
  nothing is shown either. In the example the host has the peers Ann, Bob and Cy;
  Ann's chat message is rendered and the send queues of all three channels stay
  empty.
\<close>

theorem chat_from_peer_is_not_relayed:
  assumes "webrtc w = Some m" and "wf_json (JObj ps)"
    and "obj_get ps (js ''type'') = Some (JStr (js ''chat''))
         \<or> obj_get ps (js ''type'') = Some (JStr (js ''system''))"
  shows "fst (channel_onmessage now (JSON_stringify (JObj ps)) w) =
           (if onMessage m \<and> obj_get ps (js ''type'') = Some (JStr (js ''chat''))
               \<and> (obj_get ps (js ''user'') = None \<or> obj_get ps (js ''user'') = Some JNull)
            then Inl TypeError else Inr ())
       \<and> channels (snd (channel_onmessage now (JSON_stringify (JObj ps)) w)) = channels w
       \<and> state (snd (channel_onmessage now (JSON_stringify (JObj ps)) w)) = state w
       \<and> ui (snd (channel_onmessage now (JSON_stringify (JObj ps)) w)) =
           ui w @ (if \<not> onMessage m then []
                   else if obj_get ps (js ''type'') = Some (JStr (js ''chat''))
                     then (if obj_get ps (js ''user'') = None
                              \<or> obj_get ps (js ''user'') = Some JNull then []
                           else [RenderMessage (obj_get ps (js ''user''))
                                   (obj_get ps (js ''text'')) False])
                   else [AddSystemMessage (obj_get ps (js ''text''))])"
proof -
  have parsed: "channel_onmessage now (JSON_stringify (JObj ps)) w = handleMessage now (JObj ps) w"
    using assms(2) by (rule channel_onmessage_stringify)
  from assms(3) show ?thesis
  proof
    assume t: "obj_get ps (js ''type'') = Some (JStr (js ''chat''))"
    show ?thesis
      unfolding parsed handleMessage_chat [OF assms(1) t]
      by (simp add: t renderMessage_user call_ui_def)
  next
    assume t: "obj_get ps (js ''type'') = Some (JStr (js ''system''))"
    have "js ''system'' \<noteq> js ''chat''" by (simp add: js_def)
    then show ?thesis
      unfolding parsed handleMessage_system [OF assms(1) t]
      by (simp add: t call_ui_def)
  qed
qed

theorem chat_from_peer_is_not_relayed_witness:
  "webrtc host_abc = Some (installed (Some 4) (Some 5) True)
   \<and> wf_json (JObj chat_from_ann)
   \<and> obj_get chat_from_ann (js ''type'') = Some (JStr (js ''chat''))
   \<and> isHost (state host_abc) \<and> length (peers (state host_abc)) = 3
   \<and> fst (channel_onmessage 1700000000009 (JSON_stringify (JObj chat_from_ann)) host_abc) = Inr ()
   \<and> ui (snd (channel_onmessage 1700000000009 (JSON_stringify (JObj chat_from_ann)) host_abc))
       = [RenderMessage (Some user_ann) (Some (JStr (js ''hi''))) False]
   \<and> map_option sent
        (channels (snd (channel_onmessage 1700000000009 (JSON_stringify (JObj chat_from_ann)) host_abc)) 1)
       = Some []
   \<and> map_option sent
        (channels (snd (channel_onmessage 1700000000009 (JSON_stringify (JObj chat_from_ann)) host_abc)) 3)
       = Some []
   \<and> map_option sent
        (channels (snd (channel_onmessage 1700000000009 (JSON_stringify (JObj chat_from_ann)) host_abc)) 5)
       = Some []"
  using chat_from_peer_is_not_relayed [OF host_abc_fields(1) wf_chat_from_ann,
      where now = 1700000000009]
    wf_chat_from_ann
  by (simp add: host_abc_fields host_abc_channels example_fields installed_def open_channel_def
      user_ann_def
      del: JSON_stringify.simps wf_json.simps One_nat_def)

section \<open>The peer registry\<close>

lemma channel_send_state: "channel_send c d w = (r, w') \<Longrightarrow> state w' = state w"
  by (auto simp: channel_send_def split: option.splits if_splits)

lemma state_broadcast_loop: "state (snd (broadcast_loop msg ex ps w)) = state w"
proof (induction ps arbitrary: w)
  case Nil
  show ?case by simp
next
  case (Cons p ps)
  show ?case
    by (auto split: option.splits prod.splits sum.splits simp: Cons.IH dest: channel_send_state)
qed

lemma state_broadcastMessage: "state (snd (broadcastMessage msg ex w)) = state w"
  by (simp add: broadcastMessage_def state_broadcast_loop)

lemma state_call_ui: "state (call_ui c w) = state w"
  by (simp add: call_ui_def)

lemma state_app_onPeerJoin:
  assumes "webrtc w = Some m"
  shows "state (snd (app_onPeerJoin now u w)) =
    (state w)\<lparr>peers := obj_set (show_nat now) \<lparr>peer_user = u, peer_channel = channel m\<rparr>
                         (peers (state w))\<rparr>"
  using assms
  by (simp add: app_onPeerJoin_def Let_def state_broadcastMessage state_call_ui split: sum.splits)

lemma identity_received:
  assumes "webrtc w = Some m" and "onPeerJoin m" and "wf_json (JObj ps)"
    and "obj_get ps (js ''type'') = Some (JStr (js ''identity''))"
  shows "state (snd (channel_onmessage now (JSON_stringify (JObj ps)) w)) =
      (state w)\<lparr>peers := obj_set (show_nat now)
                   \<lparr>peer_user = obj_get ps (js ''user''), peer_channel = channel m\<rparr>
                   (peers (state w))\<rparr>"
    and "webrtc (snd (channel_onmessage now (JSON_stringify (JObj ps)) w)) = Some m"
proof -
  have step: "channel_onmessage now (JSON_stringify (JObj ps)) w
      = app_onPeerJoin now (obj_get ps (js ''user'')) w"
    using assms by (simp only: channel_onmessage_stringify handleMessage_identity if_True)
  show "state (snd (channel_onmessage now (JSON_stringify (JObj ps)) w)) =
      (state w)\<lparr>peers := obj_set (show_nat now)
                   \<lparr>peer_user = obj_get ps (js ''user''), peer_channel = channel m\<rparr>
                   (peers (state w))\<rparr>"
    unfolding step using assms(1) by (rule state_app_onPeerJoin)
  show "webrtc (snd (channel_onmessage now (JSON_stringify (JObj ps)) w)) = Some m"
    unfolding step using assms(1) by (simp add: webrtc_app_onPeerJoin)
qed

lemma keys_obj_set: "set (map fst (obj_set k v ps)) = insert k (set (map fst ps))"
proof (cases "k \<in> set (map fst ps)")
  case True
  then show ?thesis
    by (simp only: obj_set_def keys_replace if_True) auto
next
  case False
  then show ?thesis
    by (simp only: obj_set_def keys_obj_insert if_False)
qed

lemma length_obj_set:
  "length (obj_set k v ps) = (if k \<in> set (map fst ps) then length ps else Suc (length ps))"
proof -
  have "length (takeWhile P ps) + length (dropWhile P ps) = length ps"
    for P :: "(jsstring \<times> 'a) \<Rightarrow> bool"
    by (metis length_append takeWhile_dropWhile_id)
  then show ?thesis
    by (simp add: obj_set_def obj_insert_def split: option.splits)
qed

lemma show_nat_small: "n < 10 \<Longrightarrow> show_nat n = [of_nat (48 + n)]"
  by (subst show_nat.simps) simp

lemma show_nat_large:
  "\<not> n < 10 \<Longrightarrow> show_nat n = show_nat (n div 10) @ [of_nat (48 + n mod 10)]"
  by (subst show_nat.simps) simp

lemma show_nat_nonempty: "show_nat n \<noteq> []"
  by (cases "n < 10") (simp_all add: show_nat_small show_nat_large)

lemma digit_unit_inj:
  assumes "a < 10" and "b < 10" and "(of_nat (48 + a) :: 16 word) = of_nat (48 + b)"
  shows "a = b"
proof -
  have "unat (of_nat (48 + a) :: 16 word) = (48 + a) mod 2 ^ LENGTH(16)"
    and "unat (of_nat (48 + b) :: 16 word) = (48 + b) mod 2 ^ LENGTH(16)"
    by (rule unat_of_nat)+
  with assms show ?thesis by simp
qed

lemma show_nat_inj: "show_nat n = show_nat m \<Longrightarrow> n = m"
proof (induction n arbitrary: m rule: less_induct)
  case (less n)
  show ?case
  proof (cases "n < 10")
    case True
    show ?thesis
    proof (cases "m < 10")
      case m: True
      from less.prems True m show ?thesis
        by (simp add: show_nat_small) (rule digit_unit_inj, simp_all)
    next
      case m: False
      from less.prems True m show ?thesis
        using show_nat_nonempty [of "m div 10"] by (simp add: show_nat_small show_nat_large)
    qed
  next
    case False
    show ?thesis
    proof (cases "m < 10")
      case m: True
      from less.prems False m show ?thesis
        using show_nat_nonempty [of "n div 10"] by (simp add: show_nat_small show_nat_large)
    next
      case m: False
      from less.prems False m
      have eq: "show_nat (n div 10) = show_nat (m div 10)"
        and last: "(of_nat (48 + n mod 10) :: 16 word) = of_nat (48 + m mod 10)"
        by (simp_all add: show_nat_large)
      from False have "n div 10 < n" by simp
      then have "n div 10 = m div 10" using eq by (rule less.IH)
      moreover have "n mod 10 = m mod 10"
        using last by (intro digit_unit_inj) simp_all
      ultimately show ?thesis
        by (metis div_mult_mod_eq)
    qed
  qed
qed

lemma keys_obj_set_image: "fst ` set (obj_set k v ps) = insert k (fst ` set ps)"
  using keys_obj_set [of k v ps] by simp

lemma two_identities:
  assumes "webrtc w = Some m" and "onPeerJoin m" and "wf_json (JObj ps)"
    and "obj_get ps (js ''type'') = Some (JStr (js ''identity''))"
  shows "state (snd (channel_onmessage t2 (JSON_stringify (JObj ps))
                  (snd (channel_onmessage t1 (JSON_stringify (JObj ps)) w)))) =
      (state w)\<lparr>peers :=
         obj_set (show_nat t2) \<lparr>peer_user = obj_get ps (js ''user''), peer_channel = channel m\<rparr>
           (obj_set (show_nat t1) \<lparr>peer_user = obj_get ps (js ''user''), peer_channel = channel m\<rparr>
              (peers (state w)))\<rparr>"
proof -
  let ?w1 = "snd (channel_onmessage t1 (JSON_stringify (JObj ps)) w)"
  have m1: "webrtc ?w1 = Some m"
    using assms by (rule identity_received(2))
  have s1: "state ?w1 = (state w)\<lparr>peers := obj_set (show_nat t1)
      \<lparr>peer_user = obj_get ps (js ''user''), peer_channel = channel m\<rparr> (peers (state w))\<rparr>"
    using assms by (rule identity_received(1))
  show ?thesis
    unfolding identity_received(1) [OF m1 assms(2,3,4)] s1 by simp
qed

lemma show_nat_examples:
  "show_nat 1700000000001 = js ''1700000000001''"
  "show_nat 1700000000002 = js ''1700000000002''"
  "show_nat 1700000000004 = js ''1700000000004''"
  "show_nat 1700000000005 = js ''1700000000005''"
  by (simp_all add: show_nat.simps js_def)

lemma host_abc_keys:
  "set (map fst (peers (state host_abc)))
     = {js ''1700000000001'', js ''1700000000002'', js ''1700000000003''}"
  by (simp add: host_abc_def)

text \<open>
  C3. The registry is keyed by \<^verbatim>\<open>Date.now()\<close>, not by the peer: two identity
  envelopes of the same peer that arrive at different times, neither time being a key
  already, add two records, both holding the carried profile and the manager's
  channel. In the example the host's registry goes from three records to five on two
  identity envelopes of Ann, who is registered already.
\<close>

theorem two_identity_envelopes_two_records:
  assumes "webrtc w = Some m" and "onPeerJoin m" and "wf_json (JObj ps)"
    and "obj_get ps (js ''type'') = Some (JStr (js ''identity''))"
    and "t1 \<noteq> t2"
    and "show_nat t1 \<notin> set (map fst (peers (state w)))"
    and "show_nat t2 \<notin> set (map fst (peers (state w)))"
  shows "length (peers (state (snd (channel_onmessage t2 (JSON_stringify (JObj ps))
                  (snd (channel_onmessage t1 (JSON_stringify (JObj ps)) w))))))
           = length (peers (state w)) + 2
       \<and> obj_get (peers (state (snd (channel_onmessage t2 (JSON_stringify (JObj ps))
                  (snd (channel_onmessage t1 (JSON_stringify (JObj ps)) w))))))
            (show_nat t1)
           = Some \<lparr>peer_user = obj_get ps (js ''user''), peer_channel = channel m\<rparr>
       \<and> obj_get (peers (state (snd (channel_onmessage t2 (JSON_stringify (JObj ps))
                  (snd (channel_onmessage t1 (JSON_stringify (JObj ps)) w))))))
            (show_nat t2)
           = Some \<lparr>peer_user = obj_get ps (js ''user''), peer_channel = channel m\<rparr>"
proof -
  have keys: "show_nat t2 \<noteq> show_nat t1"
    using assms(5) show_nat_inj by blast
  show ?thesis
    unfolding two_identities [OF assms(1-4)]
    using keys assms(6,7) by (simp add: length_obj_set keys_obj_set_image obj_get_obj_set)
qed

theorem two_identity_envelopes_two_records_witness:
  "webrtc host_abc = Some (installed (Some 4) (Some 5) True)
   \<and> onPeerJoin (installed (Some 4) (Some 5) True)
   \<and> wf_json (JObj identity_of_ann)
   \<and> obj_get identity_of_ann (js ''type'') = Some (JStr (js ''identity''))
   \<and> (1700000000004 :: nat) \<noteq> 1700000000005
   \<and> show_nat 1700000000004 \<notin> set (map fst (peers (state host_abc)))
   \<and> show_nat 1700000000005 \<notin> set (map fst (peers (state host_abc)))
   \<and> length (peers (state host_abc)) = 3
   \<and> length (peers (state (snd (channel_onmessage 1700000000005 (JSON_stringify (JObj identity_of_ann))
                  (snd (channel_onmessage 1700000000004 (JSON_stringify (JObj identity_of_ann))
                         host_abc)))))) = 5
   \<and> obj_get (peers (state (snd (channel_onmessage 1700000000005 (JSON_stringify (JObj identity_of_ann))
                  (snd (channel_onmessage 1700000000004 (JSON_stringify (JObj identity_of_ann))
                         host_abc))))))
        (js ''1700000000004'')
       = Some \<lparr>peer_user = Some user_ann, peer_channel = Some 5\<rparr>
   \<and> obj_get (peers (state (snd (channel_onmessage 1700000000005 (JSON_stringify (JObj identity_of_ann))
                  (snd (channel_onmessage 1700000000004 (JSON_stringify (JObj identity_of_ann))
                         host_abc))))))
        (js ''1700000000005'')
       = Some \<lparr>peer_user = Some user_ann, peer_channel = Some 5\<rparr>"
proof -
  have join: "onPeerJoin (installed (Some 4) (Some 5) True)"
    by (simp add: installed_def)
  have distinct: "(1700000000004 :: nat) \<noteq> 1700000000005"
    by simp
  have new4: "show_nat 1700000000004 \<notin> set (map fst (peers (state host_abc)))"
    unfolding host_abc_keys show_nat_examples by (simp add: js_def)
  have new5: "show_nat 1700000000005 \<notin> set (map fst (peers (state host_abc)))"
    unfolding host_abc_keys show_nat_examples by (simp add: js_def)
  have ch: "channel (installed (Some 4) (Some 5) True) = Some 5"
    by (simp add: installed_def)
  show ?thesis
    using two_identity_envelopes_two_records [OF host_abc_fields(1) join wf_identity(1)
        example_fields(4) distinct new4 new5]
      join wf_identity(1) new4 new5
    by (simp only: host_abc_fields example_fields show_nat_examples ch) simp
qed

lemma guest_answering_fields:
  "webrtc guest_answering = Some (installed (Some 0) None False)"
  "state guest_answering = initial_state\<lparr>currentScreen := js ''chat''\<rparr>"
  "next_ref guest_answering = 1"
  "channels guest_answering = (\<lambda>c. None)"
proof -
  have parse: "decompressDescription None (compressDescription None offer0) = Inr offer0"
    using wf_offer0
    by (simp add: decompressDescription_def compressDescription_def JSON_roundtrip
        del: JSON_stringify.simps)
  show "webrtc guest_answering = Some (installed (Some 0) None False)"
    "state guest_answering = initial_state\<lparr>currentScreen := js ''chat''\<rparr>"
    "next_ref guest_answering = 1"
    "channels guest_answering = (\<lambda>c. None)"
    by (simp_all add: guest_answering_def createAnswer_def parse Let_def ensure_webrtc_def
        setupWebRTCHandlers_def new_WebRTCManager_def initJoin_def call_ui_def page0_def
        browser0_def installed_def initial_state_def)
qed

lemma identity_frame_size:
  "utf8_length (JSON_stringify (envelope (js ''identity'') [(js ''user'', user initial_state)])) = 60"
  by (simp add: envelope_def obj_spread_def obj_set_def obj_insert_def array_index_def is_digit_def
      js_def QuoteJSONString_def escape_unit_def is_leading_surrogate_def is_trailing_surrogate_def
      unit_bytes_def initial_state_def)

lemma req_identity_frame_size:
  "utf8_length (JSON_stringify (JObj [(js ''type'', JStr (js ''req-identity''))])) = 23"
  by (simp add: js_def QuoteJSONString_def escape_unit_def is_leading_surrogate_def
      is_trailing_surrogate_def unit_bytes_def)

lemma guest_joined_fields:
  "webrtc guest_joined = Some (installed (Some 0) (Some 1) False)"
  "\<not> isHost (state guest_joined)"
  "peers (state guest_joined) = []"
  "isConnected (state guest_joined)"
  "map_option sent (channels guest_joined 1)
     = Some [JSON_stringify (envelope (js ''identity'') [(js ''user'', user initial_state)]),
             JSON_stringify (JObj [(js ''type'', JStr (js ''req-identity''))])]"
proof -
  let ?w = "snd (ondatachannel browser0 (\<lambda>cb. []) 1700000000000 0 guest_answering)"
  have w: "webrtc ?w = Some (installed (Some 0) (Some 1) False)"
    "state ?w = initial_state\<lparr>currentScreen := js ''chat''\<rparr>"
    "channels ?w = (\<lambda>c. None)(1 \<mapsto> open_channel 0 262144)"
    by (simp_all add: ondatachannel_def guest_answering_fields webrtc_emit_def installed_def
        open_channel_def browser0_def split: option.splits del: One_nat_def)
  have u: "user (initial_state\<lparr>currentScreen := js ''chat''\<rparr>) = user initial_state"
    by simp
  have joined: "guest_joined = snd (channel_onopen 1 ?w)"
    by (simp add: guest_joined_def)
  show "webrtc guest_joined = Some (installed (Some 0) (Some 1) False)"
    unfolding joined by (simp add: webrtc_channel_onopen w del: One_nat_def)
  have run: "channel_onopen 1 ?w =
      (Inr (), ?w\<lparr>state := (initial_state\<lparr>currentScreen := js ''chat''\<rparr>)\<lparr>isConnected := True\<rparr>,
                  ui := ui ?w @ [CloseModal (js ''modal-qr''),
                                 UpdateConnectionStatus (js ''Connected'') True,
                                 AddSystemMessage (Some (JStr (js ''Connected!'')))],
                  channels := (\<lambda>c. None)(1 \<mapsto> (open_channel 0 262144)\<lparr>sent :=
                     [JSON_stringify (envelope (js ''identity'') [(js ''user'', user initial_state)]),
                      JSON_stringify (JObj [(js ''type'', JStr (js ''req-identity''))])]\<rparr>)\<rparr>)"
    by (simp add: channel_onopen_def w installed_def app_onConnected_def Let_def call_ui_def
        send_def channel_send_def bind_def ret_def open_channel_def u identity_frame_size
        req_identity_frame_size
        del: JSON_stringify.simps One_nat_def)
  show "\<not> isHost (state guest_joined)" "peers (state guest_joined) = []"
    "isConnected (state guest_joined)"
    "map_option sent (channels guest_joined 1)
     = Some [JSON_stringify (envelope (js ''identity'') [(js ''user'', user initial_state)]),
             JSON_stringify (JObj [(js ''type'', JStr (js ''req-identity''))])]"
    unfolding joined run by (simp_all add: initial_state_def del: JSON_stringify.simps One_nat_def)
qed

text \<open>
  C4. The same happens on a guest: with an empty registry, two identity envelopes
  that arrive at different times leave two records, and the page is still a guest.
  The example starts from \<open>guest_joined\<close>, the state a fresh page reaches by
  joining, answering the host's offer and seeing the channel open.
\<close>

theorem guest_registry_grows_past_one:
  assumes "webrtc w = Some m" and "onPeerJoin m" and "wf_json (JObj ps)"
    and "obj_get ps (js ''type'') = Some (JStr (js ''identity''))"
    and "t1 \<noteq> t2"
    and "\<not> isHost (state w)" and "peers (state w) = []"
  shows "\<not> isHost (state (snd (channel_onmessage t2 (JSON_stringify (JObj ps))
                  (snd (channel_onmessage t1 (JSON_stringify (JObj ps)) w)))))
       \<and> length (peers (state (snd (channel_onmessage t2 (JSON_stringify (JObj ps))
                  (snd (channel_onmessage t1 (JSON_stringify (JObj ps)) w)))))) = 2"
proof -
  have keys: "show_nat t2 \<noteq> show_nat t1"
    using assms(5) show_nat_inj by blast
  show ?thesis
    unfolding two_identities [OF assms(1-4)]
    using keys assms(6,7) by (simp add: length_obj_set keys_obj_set_image)
qed

theorem guest_registry_grows_past_one_witness:
  "webrtc guest_joined = Some (installed (Some 0) (Some 1) False)
   \<and> onPeerJoin (installed (Some 0) (Some 1) False)
   \<and> wf_json (JObj identity_of_hal)
   \<and> obj_get identity_of_hal (js ''type'') = Some (JStr (js ''identity''))
   \<and> (1700000000001 :: nat) \<noteq> 1700000000002
   \<and> \<not> isHost (state guest_joined) \<and> peers (state guest_joined) = []
   \<and> \<not> isHost (state (snd (channel_onmessage 1700000000002 (JSON_stringify (JObj identity_of_hal))
                  (snd (channel_onmessage 1700000000001 (JSON_stringify (JObj identity_of_hal))
                         guest_joined)))))
   \<and> length (peers (state (snd (channel_onmessage 1700000000002 (JSON_stringify (JObj identity_of_hal))
                  (snd (channel_onmessage 1700000000001 (JSON_stringify (JObj identity_of_hal))
                         guest_joined)))))) = 2"
proof -
  have join: "onPeerJoin (installed (Some 0) (Some 1) False)"
    by (simp add: installed_def)
  have distinct: "(1700000000001 :: nat) \<noteq> 1700000000002"
    by simp
  show ?thesis
    using guest_registry_grows_past_one [OF guest_joined_fields(1) join wf_identity(2)
        example_fields(6) distinct guest_joined_fields(2,3)]
      join wf_identity(2) guest_joined_fields(2,3)
    by (simp only: guest_joined_fields(1) example_fields) simp
qed

section \<open>Dispatch to the listeners of the store\<close>

lemma map_of_map_entry:
  "map_of (map (\<lambda>p. if fst p = e then (fst p, f (snd p)) else p) ls) k =
     (if k = e then map_option f (map_of ls e) else map_of ls k)"
  by (induction ls) auto

lemma the_callbacks_on:
  "the_callbacks (on e c sm) event =
     (if e = event then the_callbacks sm event @ [c] else the_callbacks sm event)"
proof (cases "map_of (sm_listeners sm) e")
  case None
  then show ?thesis
    using map_of_map_entry [where f = "\<lambda>cs. cs @ [c]" and e = e and k = event
        and ls = "sm_listeners sm @ [(e, [])]"]
    by (auto simp: the_callbacks_def on_def map_add_def split: option.splits)
next
  case (Some cs)
  then show ?thesis
    using map_of_map_entry [where f = "\<lambda>cs. cs @ [c]" and e = e and k = event
        and ls = "sm_listeners sm"]
    by (auto simp: the_callbacks_def on_def split: option.splits)
qed

lemma the_callbacks_off:
  "the_callbacks (off e c sm) event =
     (if e = event then remove1 c (the_callbacks sm event) else the_callbacks sm event)"
  using map_of_map_entry [where f = "remove1 c" and e = e and k = event and ls = "sm_listeners sm"]
  by (auto simp: the_callbacks_def off_def split: option.splits)

lemma invoked_on_off: "invoked (on e c sm) = invoked sm" "invoked (off e c sm) = invoked sm"
  by (simp_all add: on_def off_def Let_def split: option.splits)

lemma run_action_keeps:
  assumes "\<not> removes_from event a"
  shows "\<exists>ys. the_callbacks (run_action sm a) event = the_callbacks sm event @ ys"
    and "invoked (run_action sm a) = invoked sm"
  using assms
  by (cases a; simp add: removes_from_def the_callbacks_on the_callbacks_off invoked_on_off)+

lemma run_actions_keep:
  assumes "list_all (\<lambda>a. \<not> removes_from event a) as"
  shows "(\<exists>ys. the_callbacks (foldl run_action sm as) event = the_callbacks sm event @ ys)
       \<and> invoked (foldl run_action sm as) = invoked sm"
  using assms
proof (induction as arbitrary: sm)
  case Nil
  show ?case by simp
next
  case (Cons a as)
  then have a: "\<not> removes_from event a" and rest: "list_all (\<lambda>a. \<not> removes_from event a) as"
    by simp_all
  obtain ys where ys: "the_callbacks (run_action sm a) event = the_callbacks sm event @ ys"
    using run_action_keeps(1) [OF a] by blast
  obtain zs where zs: "the_callbacks (foldl run_action (run_action sm a) as) event
      = the_callbacks (run_action sm a) event @ zs"
    and inv: "invoked (foldl run_action (run_action sm a) as) = invoked (run_action sm a)"
    using Cons.IH [OF rest, of "run_action sm a"] by blast
  show ?case
    using ys zs inv run_action_keeps(2) [OF a, of sm] by simp
qed

lemma invoke_keeps:
  assumes "list_all (\<lambda>a. \<not> removes_from event a) (body cb)"
  shows "(\<exists>ys. the_callbacks (invoke body cb event data sm) event = the_callbacks sm event @ ys)
       \<and> invoked (invoke body cb event data sm) = invoked sm @ [(cb, event, data)]"
proof -
  let ?sm = "sm\<lparr>invoked := invoked sm @ [(cb, event, data)]\<rparr>"
  have "the_callbacks ?sm event = the_callbacks sm event"
    by (simp add: the_callbacks_def)
  then show ?thesis
    using run_actions_keep [OF assms, of ?sm] by (simp add: invoke_def)
qed

lemma forEach_without_removal:
  assumes "list_all (\<lambda>cb. list_all (\<lambda>a. \<not> removes_from event a) (body cb)) cbs"
    and "the_callbacks sm event = cbs @ ys" and "k + n = length cbs"
  shows "invoked (forEach_from n k body event data sm)
       = invoked sm @ map (\<lambda>cb. (cb, event, data)) (drop k cbs)"
  using assms(2,3)
proof (induction n arbitrary: k sm ys)
  case 0
  then show ?case by simp
next
  case (Suc n)
  then have k: "k < length cbs" by simp
  then have nth: "the_callbacks sm event ! k = cbs ! k" and len: "k < length (the_callbacks sm event)"
    using Suc.prems(1) by (simp_all add: nth_append)
  have "list_all (\<lambda>a. \<not> removes_from event a) (body (cbs ! k))"
    using assms(1) k by (simp add: list_all_length)
  from invoke_keeps [where body = body and cb = "cbs ! k" and event = event and data = data
      and sm = sm, OF this]
  obtain zs where zs: "the_callbacks (invoke body (cbs ! k) event data sm) event
      = the_callbacks sm event @ zs"
    and inv: "invoked (invoke body (cbs ! k) event data sm) = invoked sm @ [(cbs ! k, event, data)]"
    by blast
  have "invoked (forEach_from n (Suc k) body event data (invoke body (cbs ! k) event data sm))
      = invoked (invoke body (cbs ! k) event data sm)
        @ map (\<lambda>cb. (cb, event, data)) (drop (Suc k) cbs)"
    using zs Suc.prems by (intro Suc.IH [where ys = "ys @ zs"]) simp_all
  then show ?case
    using len nth inv k by (simp add: Cons_nth_drop_Suc [symmetric])
qed

lemma two_listeners_callbacks: "the_callbacks two_listeners (js ''update'') = [0, 1]"
  by (simp add: the_callbacks_def two_listeners_def)

text \<open>
  C7. \<^verbatim>\<open>emit\<close> walks the array of listeners itself, not a copy. When none of the
  listeners registered for the event removes a listener of that event while it runs,
  every one of them is called once per registration, in the order of subscription
  (listeners added during the dispatch are not called).
\<close>

theorem emit_without_removal_calls_each_listener_once:
  assumes "list_all (\<lambda>cb. list_all (\<lambda>a. \<not> removes_from event a) (body cb))
             (the_callbacks sm event)"
  shows "invoked (emit body event data sm)
       = invoked sm @ map (\<lambda>cb. (cb, event, data)) (the_callbacks sm event)"
proof (cases "map_of (sm_listeners sm) event")
  case None
  then show ?thesis by (simp add: emit_def the_callbacks_def)
next
  case (Some cbs)
  then have cbs: "the_callbacks sm event = cbs" by (simp add: the_callbacks_def)
  have "invoked (forEach_from (length cbs) 0 body event data sm)
      = invoked sm @ map (\<lambda>cb. (cb, event, data)) (drop 0 cbs)"
    using assms cbs by (intro forEach_without_removal [where ys = "[]"]) simp_all
  with Some cbs show ?thesis by (simp add: emit_def)
qed

theorem emit_without_removal_calls_each_listener_once_witness:
  "list_all (\<lambda>cb. list_all (\<lambda>a. \<not> removes_from (js ''update'') a) (subscribing cb))
     (the_callbacks two_listeners (js ''update''))
   \<and> invoked (emit subscribing (js ''update'') (StateChange [] []) two_listeners)
       = [(0, js ''update'', StateChange [] []), (1, js ''update'', StateChange [] [])]"
proof -
  have ok: "list_all (\<lambda>cb. list_all (\<lambda>a. \<not> removes_from (js ''update'') a) (subscribing cb))
     (the_callbacks two_listeners (js ''update''))"
    unfolding two_listeners_callbacks
    by (simp add: subscribing_def removes_from_def js_def)
  show ?thesis
    using ok emit_without_removal_calls_each_listener_once [OF ok, of "StateChange [] []"]
    by (simp add: two_listeners_callbacks) (simp add: two_listeners_def)
qed

text \<open>C7, as stated, fails: with the listeners 0 and 1 registered, listener 0
  unsubscribing itself moves listener 1 to the index already visited, and listener 1
  is not called in that dispatch.\<close>

theorem listener_skipped_after_removal:
  "the_callbacks two_listeners (js ''update'') = [0, 1]
   \<and> invoked (emit self_removing (js ''update'') (StateChange [] []) two_listeners)
       = [(0, js ''update'', StateChange [] [])]"
  by (simp add: two_listeners_callbacks)
    (simp add: emit_def two_listeners_def the_callbacks_def invoke_def self_removing_def off_def
      numeral_2_eq_2)

end
